theory Spec2Isabelle
  imports Complex_Main "HOL-Library.Log_Nat"
begin

section \<open>JavaScript numbers\<close>

text \<open>
  A quantity is a TypeScript \<^verbatim>\<open>number\<close>: an IEEE 754 double, which the routes take from the
  request as it is. A double is NaN, an infinity with its sign, or a finite value with
  its sign (\<open>True\<close> for minus, so that the two zeros differ) and its magnitude, a
  rational of the form \<open>n * 2 ^ e\<close> with \<open>n < 2 ^ 53\<close> and \<open>- 1074 \<le> e \<le> 971\<close>.
\<close>

datatype jsnum = NaN | Infinity bool | Finite bool rat

definition js_value :: "bool \<Rightarrow> rat \<Rightarrow> rat" where
  "js_value neg m = (if neg then - m else m)"

text \<open>The double of an integer (exact for the integers the doubles hold).\<close>

definition js_int :: "int \<Rightarrow> jsnum" where
  "js_int i = Finite (i < 0) (of_int \<bar>i\<bar>)"

text \<open>Rounding to the nearest integer, a tie going to the even one.\<close>

definition round_half_even :: "rat \<Rightarrow> int" where
  "round_half_even y =
     (let f = \<lfloor>y\<rfloor>; r = y - of_int f
      in if r < 1 / 2 then f else if 1 / 2 < r then f + 1 else if even f then f else f + 1)"

text \<open>The binary exponent of a positive rational: the \<open>k\<close> with \<open>2 ^ k \<le> x < 2 ^ (k + 1)\<close>.\<close>

definition ilog2 :: "rat \<Rightarrow> int" where
  "ilog2 x = (if 1 \<le> x then bitlen \<lfloor>x\<rfloor> - 1 else - bitlen (\<lceil>1 / x\<rceil> - 1))"

text \<open>
  The double nearest to a rational, ties to even (the rounding of every arithmetic
  operation of JavaScript): the doubles around \<open>x\<close> are the multiples of
  \<open>2 ^ (e - 52)\<close>, where \<open>e\<close> is the exponent of \<open>x\<close> and at least \<open>- 1022\<close> (below,
  the doubles are subnormal and equally spaced); a result of \<open>2 ^ 1024\<close> overflows to
  infinity.
\<close>

definition round_double :: "rat \<Rightarrow> jsnum" where
  "round_double x =
     (let neg = x < 0; m = \<bar>x\<bar>;
          e = max (ilog2 m) (- 1022);
          q = 2 powi (e - 52);
          r = of_int (round_half_even (m / q)) * q
      in if 2 powi 1024 \<le> r then Infinity neg else Finite neg r)"

text \<open>
  The operator \<^verbatim>\<open>-\<close>: NaN is contagious, the difference of equal infinities is NaN, and
  an exact difference of zero is \<open>+0\<close>, except that \<open>(-0) - (+0)\<close> is \<open>-0\<close>.
\<close>

fun js_sub :: "jsnum \<Rightarrow> jsnum \<Rightarrow> jsnum" where
  "js_sub NaN y = NaN"
| "js_sub x NaN = NaN"
| "js_sub (Infinity s) (Infinity t) = (if s = t then NaN else Infinity s)"
| "js_sub (Infinity s) (Finite t n) = Infinity s"
| "js_sub (Finite s m) (Infinity t) = Infinity (\<not> t)"
| "js_sub (Finite s m) (Finite t n) =
     (let d = js_value s m - js_value t n
      in if d = 0 then Finite (s \<and> \<not> t) 0 else round_double d)"

text \<open>The operator \<^verbatim>\<open><=\<close>: false when an operand is NaN.\<close>

fun js_le :: "jsnum \<Rightarrow> jsnum \<Rightarrow> bool" where
  "js_le NaN y = False"
| "js_le x NaN = False"
| "js_le (Infinity s) (Infinity t) = (s \<or> \<not> t)"
| "js_le (Infinity s) (Finite t n) = s"
| "js_le (Finite s m) (Infinity t) = (\<not> t)"
| "js_le (Finite s m) (Finite t n) = (js_value s m \<le> js_value t n)"

text \<open>The operator \<^verbatim>\<open>===\<close> on numbers: NaN equals nothing, the two zeros are equal.\<close>

fun js_strict_eq :: "jsnum \<Rightarrow> jsnum \<Rightarrow> bool" where
  "js_strict_eq NaN y = False"
| "js_strict_eq x NaN = False"
| "js_strict_eq (Infinity s) (Infinity t) = (s = t)"
| "js_strict_eq (Infinity s) (Finite t n) = False"
| "js_strict_eq (Finite s m) (Infinity t) = False"
| "js_strict_eq (Finite s m) (Finite t n) = (js_value s m = js_value t n)"

section \<open>Documents, errors and the world of stores\<close>

text \<open>
  The routes of the server (\<^verbatim>\<open>routes.ts\<close>) and the expiration sweep (\<^verbatim>\<open>api/index.ts\<close>)
  synchronise independent concept stores: Listing, Requesting, Claiming, Offering,
  Tagging and two instances of Expiring. Every store is a MongoDB collection: a
  collection keyed by \<^verbatim>\<open>_id\<close> is a map from ids to documents; the expiration
  collections are lists of documents, because the sweep iterates over them in order.
  ObjectIds are natural numbers, handed out from the counter \<open>next_id\<close>.
  A date is a day number and a time of day a number of minutes (\<^verbatim>\<open>"00:00"\<close> is 0);
  an instant is the pair of both.
\<close>

datatype error = NotFoundError | NotAllowedError | StoreFailure nat

record listing_doc =
  l_author :: nat
  l_name :: string
  l_meetup_location :: string
  l_image :: string
  l_quantity :: jsnum
  l_description :: string
  l_tags :: "string list"
  l_hidden :: bool

record request_doc =
  r_requester :: nat
  r_name :: string
  r_quantity :: jsnum
  r_image :: "string option"
  r_description :: "string option"
  r_hidden :: bool

record exp_doc =
  e_id :: nat
  e_item :: nat
  e_date :: nat
  e_time :: nat

datatype offer_state = Active | Accepted

record offer_doc =
  o_offerer :: nat
  o_item :: nat
  o_state :: offer_state

record claim_doc =
  c_claimer :: nat
  c_quantity :: jsnum
  c_listing :: nat

text \<open>
  Every mutating store call is recorded in \<open>calls\<close>, in the order in which the
  routes issue them, so that the order of the writes of one route can be stated.
  Reads are not recorded.
\<close>

datatype call =
    ListingCreated nat
  | ListingEdited nat
  | ListingHidden nat
  | ListingDeleted nat
  | RequestCreated nat
  | RequestHidden nat
  | RequestDeleted nat
  | ListingExpAllocated nat
  | ListingExpDeleted nat
  | RequestExpAllocated nat
  | RequestExpDeleted nat
  | OfferAccepted nat
  | OffersRemoved nat
  | ClaimCreated nat
  | ItemTagged nat string

record world =
  listings :: "nat \<rightharpoonup> listing_doc"
  requests :: "nat \<rightharpoonup> request_doc"
  listing_exps :: "exp_doc list"
  request_exps :: "exp_doc list"
  offers :: "nat \<rightharpoonup> offer_doc"
  claims :: "nat \<rightharpoonup> claim_doc"
  tagged :: "(nat \<times> string) list"
  next_id :: nat
  calls :: "call list"

section \<open>The concept stores\<close>

text \<open>
  The stores, which the routes import from \<^verbatim>\<open>./app\<close>, are the collaborators of the routes.
  Each operation below is one operation of the store interface, under the name by which
  the routes call it, with the effect the interface gives it.
\<close>

subsection \<open>Listing\<close>

text \<open>Modelled from the spec: the Listing store's \<^verbatim>\<open>create(ownerId, fields) -> Item\<close>;
  the new Item is visible and gets a new id.\<close>

definition Listing_addListing ::
  "nat \<Rightarrow> string \<Rightarrow> string \<Rightarrow> string \<Rightarrow> jsnum \<Rightarrow> string \<Rightarrow> string list \<Rightarrow> world
     \<Rightarrow> (nat \<times> listing_doc) \<times> world" where
  "Listing_addListing user name meetup_location img quantity description tags s =
     (let oid = next_id s;
          doc = \<lparr>l_author = user, l_name = name, l_meetup_location = meetup_location,
                 l_image = img, l_quantity = quantity, l_description = description,
                 l_tags = tags, l_hidden = False\<rparr>
      in ((oid, doc),
          s\<lparr>listings := (listings s)(oid \<mapsto> doc), next_id := Suc oid,
            calls := calls s @ [ListingCreated oid]\<rparr>))"

text \<open>Modelled from the spec: the Listing store's \<^verbatim>\<open>getById(id) -> Item|NotFound\<close>.\<close>

definition Listing_getListingById :: "nat \<Rightarrow> world \<Rightarrow> error + listing_doc" where
  "Listing_getListingById oid s =
     (case listings s oid of None \<Rightarrow> Inl NotFoundError | Some l \<Rightarrow> Inr l)"

text \<open>Modelled from the spec: the Listing store's \<^verbatim>\<open>edit(id, partialFields) -> Item\<close>;
  a field that is not given (\<open>None\<close>) keeps its value, and \<open>hidden\<close> is not a field
  of the edit.\<close>

definition Listing_editlisting ::
  "nat \<Rightarrow> string option \<Rightarrow> string option \<Rightarrow> string option \<Rightarrow> jsnum option \<Rightarrow> string option
     \<Rightarrow> string list option \<Rightarrow> world \<Rightarrow> world" where
  "Listing_editlisting oid name meetup_location img quantity description tags s =
     (case listings s oid of
        None \<Rightarrow> s
      | Some l \<Rightarrow>
          s\<lparr>listings := (listings s)(oid \<mapsto>
               l\<lparr>l_name := (case name of None \<Rightarrow> l_name l | Some v \<Rightarrow> v),
                 l_meetup_location :=
                   (case meetup_location of None \<Rightarrow> l_meetup_location l | Some v \<Rightarrow> v),
                 l_image := (case img of None \<Rightarrow> l_image l | Some v \<Rightarrow> v),
                 l_quantity := (case quantity of None \<Rightarrow> l_quantity l | Some v \<Rightarrow> v),
                 l_description := (case description of None \<Rightarrow> l_description l | Some v \<Rightarrow> v),
                 l_tags := (case tags of None \<Rightarrow> l_tags l | Some v \<Rightarrow> v)\<rparr>),
            calls := calls s @ [ListingEdited oid]\<rparr>)"

text \<open>Modelled from the spec: the Listing store's \<^verbatim>\<open>setHidden(id, true) -> void\<close>, which
  the routes call as \<^verbatim>\<open>Listing.hideSwitch\<close>.\<close>

definition Listing_hideSwitch :: "nat \<Rightarrow> world \<Rightarrow> world" where
  "Listing_hideSwitch oid s =
     s\<lparr>listings :=
         (case listings s oid of
            None \<Rightarrow> listings s
          | Some l \<Rightarrow> (listings s)(oid \<mapsto> l\<lparr>l_hidden := True\<rparr>)),
       calls := calls s @ [ListingHidden oid]\<rparr>"

text \<open>Modelled from the spec: the Listing store's \<^verbatim>\<open>delete(id) -> void\<close>.\<close>

definition Listing_delete :: "nat \<Rightarrow> world \<Rightarrow> world" where
  "Listing_delete oid s =
     s\<lparr>listings := (listings s)(oid := None), calls := calls s @ [ListingDeleted oid]\<rparr>"

text \<open>Modelled from the spec: the Listing store's
  \<^verbatim>\<open>assertAuthorIs(id, userId) -> void | AuthorizationError\<close>; a missing Item is NotFound.\<close>

definition Listing_assertAuthorIsUser :: "nat \<Rightarrow> nat \<Rightarrow> world \<Rightarrow> error + unit" where
  "Listing_assertAuthorIsUser oid user s =
     (case listings s oid of
        None \<Rightarrow> Inl NotFoundError
      | Some l \<Rightarrow> if l_author l = user then Inr () else Inl NotAllowedError)"

subsection \<open>Requesting\<close>

text \<open>Modelled from the spec: the Request store's \<^verbatim>\<open>create(ownerId, fields) -> Item\<close>;
  the new Item is visible and gets a new id.\<close>

definition Requesting_add ::
  "nat \<Rightarrow> string \<Rightarrow> jsnum \<Rightarrow> string option \<Rightarrow> string option \<Rightarrow> world
     \<Rightarrow> (nat \<times> request_doc) \<times> world" where
  "Requesting_add user name quantity img description s =
     (let oid = next_id s;
          doc = \<lparr>r_requester = user, r_name = name, r_quantity = quantity, r_image = img,
                 r_description = description, r_hidden = False\<rparr>
      in ((oid, doc),
          s\<lparr>requests := (requests s)(oid \<mapsto> doc), next_id := Suc oid,
            calls := calls s @ [RequestCreated oid]\<rparr>))"

text \<open>Modelled from the spec: the Request store's \<^verbatim>\<open>getById(id) -> Item|NotFound\<close>.\<close>

definition Requesting_getRequestById :: "nat \<Rightarrow> world \<Rightarrow> error + request_doc" where
  "Requesting_getRequestById oid s =
     (case requests s oid of None \<Rightarrow> Inl NotFoundError | Some r \<Rightarrow> Inr r)"

text \<open>Modelled from the spec: the Request store's \<^verbatim>\<open>setHidden(id, true) -> void\<close>, which
  the routes call as \<^verbatim>\<open>Requesting.hideSwitch\<close>.\<close>

definition Requesting_hideSwitch :: "nat \<Rightarrow> world \<Rightarrow> world" where
  "Requesting_hideSwitch oid s =
     s\<lparr>requests :=
         (case requests s oid of
            None \<Rightarrow> requests s
          | Some r \<Rightarrow> (requests s)(oid \<mapsto> r\<lparr>r_hidden := True\<rparr>)),
       calls := calls s @ [RequestHidden oid]\<rparr>"

text \<open>Modelled from the spec: the Request store's \<^verbatim>\<open>delete(id) -> void\<close>.\<close>

definition Requesting_delete :: "nat \<Rightarrow> world \<Rightarrow> world" where
  "Requesting_delete oid s =
     s\<lparr>requests := (requests s)(oid := None), calls := calls s @ [RequestDeleted oid]\<rparr>"

text \<open>Modelled from the spec: the Request store's
  \<^verbatim>\<open>assertAuthorIs(id, userId) -> void | AuthorizationError\<close>; a missing Item is NotFound.\<close>

definition Requesting_assertAuthor :: "nat \<Rightarrow> nat \<Rightarrow> world \<Rightarrow> error + unit" where
  "Requesting_assertAuthor oid user s =
     (case requests s oid of
        None \<Rightarrow> Inl NotFoundError
      | Some r \<Rightarrow> if r_requester r = user then Inr () else Inl NotAllowedError)"

subsection \<open>Expiring\<close>

text \<open>
  One store class with two instances, \<^verbatim>\<open>Listing_Expiring\<close> and \<^verbatim>\<open>Request_Expiring\<close>. The
  operations on a collection come first, the two instances after them.
\<close>

text \<open>Modelled from the spec: \<^verbatim>\<open>getByItem(itemId) -> Record|None\<close> of the
  ExpirationRecord store.\<close>

definition Expiring_getExpireByItem :: "nat \<Rightarrow> exp_doc list \<Rightarrow> exp_doc option" where
  "Expiring_getExpireByItem item docs = find (\<lambda>e. e_item e = item) docs"

text \<open>Modelled from the spec: \<^verbatim>\<open>allocate(itemId, date, time) -> Record\<close> of the
  ExpirationRecord store; creating a second record when one exists for the item is
  treated as an update, not a duplicate.\<close>

definition Expiring_allocate :: "nat \<Rightarrow> nat \<Rightarrow> nat \<Rightarrow> nat \<Rightarrow> exp_doc list \<Rightarrow> exp_doc list" where
  "Expiring_allocate rid item date time docs =
     (case Expiring_getExpireByItem item docs of
        None \<Rightarrow> docs @ [\<lparr>e_id = rid, e_item = item, e_date = date, e_time = time\<rparr>]
      | Some existing \<Rightarrow>
          map (\<lambda>e. if e_item e = item then e\<lparr>e_date := date, e_time := time\<rparr> else e) docs)"

text \<open>Modelled from the spec: \<^verbatim>\<open>delete(recordId) -> void\<close> of the ExpirationRecord store.\<close>

definition Expiring_delete :: "nat \<Rightarrow> exp_doc list \<Rightarrow> exp_doc list" where
  "Expiring_delete rid docs = filter (\<lambda>e. e_id e \<noteq> rid) docs"

text \<open>Modelled from the spec: a record is expired when its target instant (date, then
  time of day) is at or before now.\<close>

definition expired :: "nat \<times> nat \<Rightarrow> exp_doc \<Rightarrow> bool" where
  "expired now e = (e_date e < fst now \<or> (e_date e = fst now \<and> e_time e \<le> snd now))"

text \<open>Modelled from the spec: \<^verbatim>\<open>getAllExpired(now) -> [Record]\<close>, the records with target
  instant at or before now. The source reads the clock inside the store; here the
  instant of the call is the argument \<open>now\<close>.\<close>

definition Expiring_getAllExpired :: "nat \<times> nat \<Rightarrow> exp_doc list \<Rightarrow> exp_doc list" where
  "Expiring_getAllExpired now docs = filter (expired now) docs"

text \<open>Modelled from the spec: the instance \<^verbatim>\<open>Listing_Expiring\<close> of the ExpirationRecord
  store, with \<^verbatim>\<open>allocate\<close> and \<^verbatim>\<open>delete\<close> on the collection of the listings' records. A new
  record gets a new id.\<close>

definition Listing_Expiring_allocate :: "nat \<Rightarrow> nat \<Rightarrow> nat \<Rightarrow> world \<Rightarrow> world" where
  "Listing_Expiring_allocate item date time s =
     s\<lparr>listing_exps := Expiring_allocate (next_id s) item date time (listing_exps s),
       next_id := Suc (next_id s),
       calls := calls s @ [ListingExpAllocated item]\<rparr>"

definition Listing_Expiring_delete :: "nat \<Rightarrow> world \<Rightarrow> world" where
  "Listing_Expiring_delete rid s =
     s\<lparr>listing_exps := Expiring_delete rid (listing_exps s),
       calls := calls s @ [ListingExpDeleted rid]\<rparr>"

text \<open>Modelled from the spec: the instance \<^verbatim>\<open>Request_Expiring\<close> of the ExpirationRecord
  store, on the collection of the requests' records.\<close>

definition Request_Expiring_allocate :: "nat \<Rightarrow> nat \<Rightarrow> nat \<Rightarrow> world \<Rightarrow> world" where
  "Request_Expiring_allocate item date time s =
     s\<lparr>request_exps := Expiring_allocate (next_id s) item date time (request_exps s),
       next_id := Suc (next_id s),
       calls := calls s @ [RequestExpAllocated item]\<rparr>"

definition Request_Expiring_delete :: "nat \<Rightarrow> world \<Rightarrow> world" where
  "Request_Expiring_delete rid s =
     s\<lparr>request_exps := Expiring_delete rid (request_exps s),
       calls := calls s @ [RequestExpDeleted rid]\<rparr>"

subsection \<open>Offering\<close>

text \<open>Modelled from the spec: \<^verbatim>\<open>getById(id) -> Offer\<close> of the Offer store; a missing
  Offer is NotFound.\<close>

definition Offering_getOfferById :: "nat \<Rightarrow> world \<Rightarrow> error + offer_doc" where
  "Offering_getOfferById oid s =
     (case offers s oid of None \<Rightarrow> Inl NotFoundError | Some offer \<Rightarrow> Inr offer)"

text \<open>Modelled from the spec: \<^verbatim>\<open>accept(id) -> void\<close> of the Offer store: the Offer goes
  to the accepted state.\<close>

definition Offering_accept :: "nat \<Rightarrow> world \<Rightarrow> world" where
  "Offering_accept oid s =
     s\<lparr>offers :=
         (case offers s oid of
            None \<Rightarrow> offers s
          | Some offer \<Rightarrow> (offers s)(oid \<mapsto> offer\<lparr>o_state := Accepted\<rparr>)),
       calls := calls s @ [OfferAccepted oid]\<rparr>"

text \<open>Modelled from the spec: \<^verbatim>\<open>removeAllForItem(requestId) -> void\<close> of the Offer store:
  every Offer that references the Request leaves the store (the removed state of an
  Offer's lifecycle is its absence).\<close>

definition Offering_removeAllItemOffers :: "nat \<Rightarrow> world \<Rightarrow> world" where
  "Offering_removeAllItemOffers item s =
     s\<lparr>offers :=
         (\<lambda>k. case offers s k of
                None \<Rightarrow> None
              | Some offer \<Rightarrow> if o_item offer = item then None else Some offer),
       calls := calls s @ [OffersRemoved item]\<rparr>"

subsection \<open>Tagging\<close>

text \<open>Modelled from the spec: the Tag store links an item id and a tag label.\<close>

definition Tagging_tagItem :: "nat \<Rightarrow> string \<Rightarrow> world \<Rightarrow> world" where
  "Tagging_tagItem oid tag s =
     s\<lparr>tagged := tagged s @ [(oid, tag)], calls := calls s @ [ItemTagged oid tag]\<rparr>"

subsection \<open>Claiming\<close>

text \<open>Modelled from the spec: the Claim store creates a Claim that references a Listing
  id, a claiming user and a quantity.\<close>

definition Claiming_claim :: "nat \<Rightarrow> jsnum \<Rightarrow> nat \<Rightarrow> world \<Rightarrow> (nat \<times> claim_doc) \<times> world" where
  "Claiming_claim user quantity oid s =
     (let cid = next_id s;
          doc = \<lparr>c_claimer = user, c_quantity = quantity, c_listing = oid\<rparr>
      in ((cid, doc),
          s\<lparr>claims := (claims s)(cid \<mapsto> doc), next_id := Suc cid,
            calls := calls s @ [ClaimCreated cid]\<rparr>))"

section \<open>The routes\<close>

subsection \<open>Claiming a listing\<close>

datatype claim_reply = Claimed nat claim_doc | Message string

text \<open>
  \<^verbatim>\<open>claim(session, listingId, quantity)\<close>: the session's user is the argument \<open>user\<close>.
  The listing is read once; its fields are passed back to \<^verbatim>\<open>editlisting\<close> with the new
  quantity. The comparison \<^verbatim>\<open><=\<close>, the difference and the test \<^verbatim>\<open>===\<close> are those of
  JavaScript numbers; the quantity of the request is not checked in any other way.
\<close>

definition claim :: "nat \<Rightarrow> nat \<Rightarrow> jsnum \<Rightarrow> world \<Rightarrow> (error + claim_reply) \<times> world" where
  "claim user oid quantity s =
     (case Listing_getListingById oid s of
        Inl err \<Rightarrow> (Inl err, s)
      | Inr listing \<Rightarrow>
          if js_le quantity (l_quantity listing) then
            (let newQuantity = js_sub (l_quantity listing) quantity;
                 (created, s1) = Claiming_claim user quantity oid s;
                 s2 = Listing_editlisting oid (Some (l_name listing))
                        (Some (l_meetup_location listing)) (Some (l_image listing))
                        (Some newQuantity) None None s1;
                 s3 = (if js_strict_eq quantity (l_quantity listing)
                       then Listing_hideSwitch oid s2 else s2)
             in (Inr (Claimed (fst created) (snd created)), s3))
          else (Inr (Message ''Attempted to claim more items than are available.''), s))"

subsection \<open>Creating an item with its expiration record\<close>

text \<open>
  A store call can fail for a reason outside the store's contract (the store is
  unreachable). For the creation routes, whose \<^verbatim>\<open>try\<close>/\<^verbatim>\<open>catch\<close> blocks decide what
  happens then, \<open>faults\<close> says which call of the route throws, and which error: the
  write of the Item, the write of its ExpirationRecord, the tagging of the item with a
  given label, the formatting of the reply (\<^verbatim>\<open>Responses.listing\<close>, \<^verbatim>\<open>Responses.request\<close>, which
  is awaited inside the \<^verbatim>\<open>try\<close> block and writes nothing), and the delete that rolls the Item
  back.
\<close>

record faults =
  item_write :: "error option"
  exp_write :: "error option"
  tag_write :: "string \<Rightarrow> error option"
  response :: "error option"
  rollback_delete :: "error option"

text \<open>The loop \<^verbatim>\<open>for (const tag of tags) await Tagging.tagItem(createdListing._id, tag)\<close>;
  it stops at the first call that throws.\<close>

fun tag_loop :: "faults \<Rightarrow> nat \<Rightarrow> string list \<Rightarrow> world \<Rightarrow> error option \<times> world" where
  "tag_loop f oid [] s = (None, s)"
| "tag_loop f oid (tag # tags) s =
     (case tag_write f tag of
        Some err \<Rightarrow> (Some err, s)
      | None \<Rightarrow> tag_loop f oid tags (Tagging_tagItem oid tag s))"

text \<open>
  The \<^verbatim>\<open>try\<close> block of \<^verbatim>\<open>addListing\<close>. It returns the reply or the error thrown, the
  variable \<^verbatim>\<open>createdListing\<close> as the \<^verbatim>\<open>catch\<close> block finds it, and the stores. The store's
  \<^verbatim>\<open>create\<close> returns the Item, so \<^verbatim>\<open>if (createdListing)\<close> holds whenever it is reached. The
  reply carries the created listing, once \<^verbatim>\<open>Responses.listing\<close> has formatted it.
\<close>

definition addListing_try ::
  "faults \<Rightarrow> nat \<Rightarrow> string \<Rightarrow> string \<Rightarrow> string \<Rightarrow> jsnum \<Rightarrow> nat \<Rightarrow> string \<Rightarrow> string list \<Rightarrow> world
     \<Rightarrow> (error + nat \<times> listing_doc) \<times> nat option \<times> world" where
  "addListing_try f user name meetup_location img quantity expireDate description tags s =
     (case item_write f of
        Some err \<Rightarrow> (Inl err, None, s)
      | None \<Rightarrow>
          (let (created, s1) =
                 Listing_addListing user name meetup_location img quantity description tags s;
               createdListing = fst created
           in case exp_write f of
                Some err \<Rightarrow> (Inl err, Some createdListing, s1)
              | None \<Rightarrow>
                  (let s2 = Listing_Expiring_allocate createdListing expireDate 0 s1
                   in case tag_loop f createdListing tags s2 of
                        (Some err, s3) \<Rightarrow> (Inl err, Some createdListing, s3)
                      | (None, s3) \<Rightarrow>
                          (case response f of
                             Some err \<Rightarrow> (Inl err, Some createdListing, s3)
                           | None \<Rightarrow> (Inr created, Some createdListing, s3)))))"

text \<open>
  \<^verbatim>\<open>addListing\<close>: the \<^verbatim>\<open>catch\<close> block deletes the created listing, if there is one, and
  throws the error it caught again; an error of the delete itself is caught and logged.
\<close>

definition addListing ::
  "faults \<Rightarrow> nat \<Rightarrow> string \<Rightarrow> string \<Rightarrow> string \<Rightarrow> jsnum \<Rightarrow> nat \<Rightarrow> string \<Rightarrow> string list \<Rightarrow> world
     \<Rightarrow> (error + nat \<times> listing_doc) \<times> world" where
  "addListing f user name meetup_location img quantity expireDate description tags s =
     (case addListing_try f user name meetup_location img quantity expireDate description tags s of
        (Inr reply, createdListing, s') \<Rightarrow> (Inr reply, s')
      | (Inl err, createdListing, s') \<Rightarrow>
          (case createdListing of
             None \<Rightarrow> (Inl err, s')
           | Some oid \<Rightarrow>
               (case rollback_delete f of
                  None \<Rightarrow> (Inl err, Listing_delete oid s')
                | Some rollbackError \<Rightarrow> (Inl err, s'))))"

text \<open>The \<^verbatim>\<open>try\<close> block of \<^verbatim>\<open>addRequest\<close>; a request has no tags, and its reply is formatted
  by \<^verbatim>\<open>Responses.request\<close>.\<close>

definition addRequest_try ::
  "faults \<Rightarrow> nat \<Rightarrow> string \<Rightarrow> jsnum \<Rightarrow> nat \<Rightarrow> string option \<Rightarrow> string option \<Rightarrow> world
     \<Rightarrow> (error + nat \<times> request_doc) \<times> nat option \<times> world" where
  "addRequest_try f user name quantity needBy img description s =
     (case item_write f of
        Some err \<Rightarrow> (Inl err, None, s)
      | None \<Rightarrow>
          (let (created, s1) = Requesting_add user name quantity img description s;
               createdRequest = fst created
           in case exp_write f of
                Some err \<Rightarrow> (Inl err, Some createdRequest, s1)
              | None \<Rightarrow>
                  (let s2 = Request_Expiring_allocate createdRequest needBy 0 s1
                   in case response f of
                        Some err \<Rightarrow> (Inl err, Some createdRequest, s2)
                      | None \<Rightarrow> (Inr created, Some createdRequest, s2))))"

definition addRequest ::
  "faults \<Rightarrow> nat \<Rightarrow> string \<Rightarrow> jsnum \<Rightarrow> nat \<Rightarrow> string option \<Rightarrow> string option \<Rightarrow> world
     \<Rightarrow> (error + nat \<times> request_doc) \<times> world" where
  "addRequest f user name quantity needBy img description s =
     (case addRequest_try f user name quantity needBy img description s of
        (Inr reply, createdRequest, s') \<Rightarrow> (Inr reply, s')
      | (Inl err, createdRequest, s') \<Rightarrow>
          (case createdRequest of
             None \<Rightarrow> (Inl err, s')
           | Some oid \<Rightarrow>
               (case rollback_delete f of
                  None \<Rightarrow> (Inl err, Requesting_delete oid s')
                | Some rollbackError \<Rightarrow> (Inl err, s'))))"

subsection \<open>Deleting an item with its dependants\<close>

text \<open>
  The store calls of the delete routes can fail as well; \<open>delete_faults\<close> says which of
  them throws: the check of the author, the lookup of the expiration record, the delete
  of that record, the removal of the offers, the delete of the item.
\<close>

record delete_faults =
  author_check :: "error option"
  exp_lookup :: "error option"
  exp_delete :: "error option"
  offers_remove :: "error option"
  primary_delete :: "error option"

text \<open>
  \<^verbatim>\<open>deleteListing\<close> and \<^verbatim>\<open>deleteRequest\<close>. The author is checked first, and an error of
  the check goes to the caller. The cleanup of the expiration record stands in a
  \<^verbatim>\<open>try\<close>/\<^verbatim>\<open>catch\<close> of its own: the record of the item is looked up and, if there is one,
  deleted; an error of the lookup or of the delete is caught and logged, and the route
  goes on. For a request all its offers are removed next. The item is deleted last; an
  error of the removal or of the last delete goes to the caller.
\<close>

definition deleteListing :: "delete_faults \<Rightarrow> nat \<Rightarrow> nat \<Rightarrow> world \<Rightarrow> (error + unit) \<times> world" where
  "deleteListing f user oid s =
     (case (case author_check f of
              Some err \<Rightarrow> Inl err
            | None \<Rightarrow> Listing_assertAuthorIsUser oid user s) of
        Inl err \<Rightarrow> (Inl err, s)
      | Inr u \<Rightarrow>
          (let s1 = (case exp_lookup f of
                       Some err \<Rightarrow> s
                     | None \<Rightarrow>
                         (case Expiring_getExpireByItem oid (listing_exps s) of
                            None \<Rightarrow> s
                          | Some listingExp \<Rightarrow>
                              (case exp_delete f of
                                 Some err \<Rightarrow> s
                               | None \<Rightarrow> Listing_Expiring_delete (e_id listingExp) s)))
           in case primary_delete f of
                Some err \<Rightarrow> (Inl err, s1)
              | None \<Rightarrow> (Inr (), Listing_delete oid s1)))"

definition deleteRequest :: "delete_faults \<Rightarrow> nat \<Rightarrow> nat \<Rightarrow> world \<Rightarrow> (error + unit) \<times> world" where
  "deleteRequest f user oid s =
     (case (case author_check f of
              Some err \<Rightarrow> Inl err
            | None \<Rightarrow> Requesting_assertAuthor oid user s) of
        Inl err \<Rightarrow> (Inl err, s)
      | Inr u \<Rightarrow>
          (let s1 = (case exp_lookup f of
                       Some err \<Rightarrow> s
                     | None \<Rightarrow>
                         (case Expiring_getExpireByItem oid (request_exps s) of
                            None \<Rightarrow> s
                          | Some RequestExp \<Rightarrow>
                              (case exp_delete f of
                                 Some err \<Rightarrow> s
                               | None \<Rightarrow> Request_Expiring_delete (e_id RequestExp) s)))
           in case offers_remove f of
                Some err \<Rightarrow> (Inl err, s1)
              | None \<Rightarrow>
                  (let s2 = Offering_removeAllItemOffers oid s1
                   in case primary_delete f of
                        Some err \<Rightarrow> (Inl err, s2)
                      | None \<Rightarrow> (Inr (), Requesting_delete oid s2))))"

subsection \<open>Accepting an offer\<close>

text \<open>\<^verbatim>\<open>acceptOffer\<close>: the offer is fetched, its request is hidden, the offer is accepted.
  The session's user is read and not used.\<close>

definition acceptOffer :: "nat \<Rightarrow> nat \<Rightarrow> world \<Rightarrow> (error + string) \<times> world" where
  "acceptOffer user oid s =
     (case Offering_getOfferById oid s of
        Inl err \<Rightarrow> (Inl err, s)
      | Inr offer \<Rightarrow>
          (let s1 = Requesting_hideSwitch (o_item offer) s;
               s2 = Offering_accept oid s1
           in (Inr ''Accepted offer!'', s2)))"

section \<open>The expiration sweep\<close>

text \<open>
  The body of the loop of \<^verbatim>\<open>handleListingsExpired\<close>, with its \<^verbatim>\<open>try\<close>/\<^verbatim>\<open>catch\<close>: an error
  of \<^verbatim>\<open>getListingById\<close> is caught and logged, and the loop goes on with the next record.
\<close>

definition process_expired_listing :: "exp_doc \<Rightarrow> world \<Rightarrow> world" where
  "process_expired_listing doc s =
     (let itemOid = e_item doc
      in case Listing_getListingById itemOid s of
           Inl err \<Rightarrow> s
         | Inr listing \<Rightarrow>
             if \<not> l_hidden listing then
               Listing_Expiring_delete (e_id doc) (Listing_hideSwitch itemOid s)
             else if l_hidden listing then Listing_Expiring_delete (e_id doc) s
             else s)"

text \<open>\<^verbatim>\<open>handleListingsExpired\<close>: the expired records are fetched once; with none of them
  the handler returns at once, otherwise it goes through them in order.\<close>

definition handleListingsExpired :: "nat \<times> nat \<Rightarrow> world \<Rightarrow> world" where
  "handleListingsExpired now s =
     (let expiredDocs = Expiring_getAllExpired now (listing_exps s)
      in if expiredDocs = [] then s else fold process_expired_listing expiredDocs s)"

text \<open>The same for \<^verbatim>\<open>handleRequestsExpired\<close>.\<close>

definition process_expired_request :: "exp_doc \<Rightarrow> world \<Rightarrow> world" where
  "process_expired_request doc s =
     (let itemOid = e_item doc
      in case Requesting_getRequestById itemOid s of
           Inl err \<Rightarrow> s
         | Inr request \<Rightarrow>
             if \<not> r_hidden request then
               Request_Expiring_delete (e_id doc) (Requesting_hideSwitch itemOid s)
             else if r_hidden request then Request_Expiring_delete (e_id doc) s
             else s)"

definition handleRequestsExpired :: "nat \<times> nat \<Rightarrow> world \<Rightarrow> world" where
  "handleRequestsExpired now s =
     (let expiredDocs = Expiring_getAllExpired now (request_exps s)
      in if expiredDocs = [] then s else fold process_expired_request expiredDocs s)"

text \<open>One tick of the schedule \<^verbatim>\<open>cron.schedule("*/5 * * * *", ...)\<close>: the listings, then
  the requests. Neither handler lets an error out.\<close>

definition cron_tick :: "nat \<times> nat \<Rightarrow> world \<Rightarrow> world" where
  "cron_tick now s = handleRequestsExpired now (handleListingsExpired now s)"

section \<open>The core operations\<close>

text \<open>The operations of the orchestration layer, each with its arguments, and the
  stores they leave behind.\<close>

datatype core_op =
    AddListing faults nat string string string jsnum nat string "string list"
  | AddRequest faults nat string jsnum nat "string option" "string option"
  | DeleteListing delete_faults nat nat
  | DeleteRequest delete_faults nat nat
  | AcceptOffer nat nat
  | Claim nat nat jsnum
  | SweepTick "nat \<times> nat"

fun run_core :: "core_op \<Rightarrow> world \<Rightarrow> world" where
  "run_core (AddListing f user name meetup_location img quantity expireDate description tags) s =
     snd (addListing f user name meetup_location img quantity expireDate description tags s)"
| "run_core (AddRequest f user name quantity needBy img description) s =
     snd (addRequest f user name quantity needBy img description s)"
| "run_core (DeleteListing f user oid) s = snd (deleteListing f user oid s)"
| "run_core (DeleteRequest f user oid) s = snd (deleteRequest f user oid s)"
| "run_core (AcceptOffer user oid) s = snd (acceptOffer user oid s)"
| "run_core (Claim user oid quantity) s = snd (claim user oid quantity s)"
| "run_core (SweepTick now) s = cron_tick now s"

text \<open>The ids in use are below the counter: the id of a new document is new.\<close>

definition ids_fresh :: "world \<Rightarrow> bool" where
  "ids_fresh s = (\<forall>i. next_id s \<le> i \<longrightarrow> listings s i = None \<and> requests s i = None)"

text \<open>The \<^verbatim>\<open>_id\<close> of a document is its key: no two expiration records share one.\<close>

definition unique_ids :: "exp_doc list \<Rightarrow> bool" where
  "unique_ids docs = distinct (map e_id docs)"

text \<open>The invariant of the ExpirationRecord store: at most one record per item.\<close>

definition one_record_per_item :: "exp_doc list \<Rightarrow> bool" where
  "one_record_per_item docs = distinct (map e_item docs)"

text \<open>The empty stores, and the fault plans in which no call fails.\<close>

definition empty_world :: world where
  "empty_world =
     \<lparr>listings = Map.empty, requests = Map.empty, listing_exps = [], request_exps = [],
      offers = Map.empty, claims = Map.empty, tagged = [], next_id = 0, calls = []\<rparr>"

definition no_faults :: faults where
  "no_faults =
     \<lparr>item_write = None, exp_write = None, tag_write = (\<lambda>tag. None), response = None,
      rollback_delete = None\<rparr>"

definition no_delete_faults :: delete_faults where
  "no_delete_faults =
     \<lparr>author_check = None, exp_lookup = None, exp_delete = None, offers_remove = None,
      primary_delete = None\<rparr>"

section \<open>Example stores\<close>

text \<open>
  Stores on which the theorems below are run: a visible and a hidden listing, a visible
  and a hidden request, each with an expiration record of day 5; one more record per
  kind whose item (20, 21) is gone; and two offers on request 2.
\<close>

definition demo_listing :: listing_doc where
  "demo_listing =
     \<lparr>l_author = 1, l_name = ''bread'', l_meetup_location = ''lobby'', l_image = ''bread.png'',
      l_quantity = js_int 5, l_description = ''fresh'', l_tags = [''food''], l_hidden = False\<rparr>"

definition demo_request :: request_doc where
  "demo_request =
     \<lparr>r_requester = 2, r_name = ''ladder'', r_quantity = js_int 1, r_image = None,
      r_description = None, r_hidden = False\<rparr>"

definition demo_world :: world where
  "demo_world =
     \<lparr>listings = [0 \<mapsto> demo_listing, 1 \<mapsto> demo_listing\<lparr>l_hidden := True\<rparr>],
      requests = [2 \<mapsto> demo_request, 3 \<mapsto> demo_request\<lparr>r_hidden := True\<rparr>],
      listing_exps =
        [\<lparr>e_id = 10, e_item = 0, e_date = 5, e_time = 0\<rparr>,
         \<lparr>e_id = 11, e_item = 1, e_date = 5, e_time = 0\<rparr>,
         \<lparr>e_id = 12, e_item = 20, e_date = 5, e_time = 0\<rparr>],
      request_exps =
        [\<lparr>e_id = 13, e_item = 2, e_date = 5, e_time = 0\<rparr>,
         \<lparr>e_id = 14, e_item = 3, e_date = 5, e_time = 0\<rparr>,
         \<lparr>e_id = 15, e_item = 21, e_date = 5, e_time = 0\<rparr>],
      offers =
        [30 \<mapsto> \<lparr>o_offerer = 3, o_item = 2, o_state = Active\<rparr>,
         31 \<mapsto> \<lparr>o_offerer = 4, o_item = 2, o_state = Active\<rparr>],
      claims = Map.empty, tagged = [], next_id = 40, calls = []\<rparr>"

text \<open>Stores with one listing, whose quantity is the double \<open>2 ^ 53 + 2\<close>.\<close>

definition big_world :: world where
  "big_world =
     empty_world\<lparr>listings := [0 \<mapsto> demo_listing\<lparr>l_quantity := js_int 9007199254740994\<rparr>],
                 next_id := 1\<rparr>"

text \<open>Fault plans: the expiration write fails; it fails and the rollback delete fails
  too; the tagging with the label \<open>x\<close> fails; the write of the item fails.\<close>

definition exp_fault :: faults where
  "exp_fault = no_faults\<lparr>exp_write := Some (StoreFailure 1)\<rparr>"

definition double_fault :: faults where
  "double_fault =
     no_faults\<lparr>exp_write := Some (StoreFailure 1), rollback_delete := Some (StoreFailure 2)\<rparr>"

definition tag_fault :: faults where
  "tag_fault =
     no_faults\<lparr>tag_write := (\<lambda>tag. if tag = ''x'' then Some (StoreFailure 3) else None)\<rparr>"

definition item_fault :: faults where
  "item_fault = no_faults\<lparr>item_write := Some (StoreFailure 0)\<rparr>"

text \<open>Fault plans of a delete route: the delete of the expiration record fails; its
  lookup fails.\<close>

definition cleanup_fault :: delete_faults where
  "cleanup_fault = no_delete_faults\<lparr>exp_delete := Some (StoreFailure 4)\<rparr>"

definition lookup_fault :: delete_faults where
  "lookup_fault = no_delete_faults\<lparr>exp_lookup := Some (StoreFailure 5)\<rparr>"

section \<open>Properties\<close>

subsection \<open>Numbers\<close>

lemma bitlen_eqI: "2 ^ n \<le> x \<Longrightarrow> x < 2 ^ Suc n \<Longrightarrow> bitlen x = int n + 1"
proof -
  assume a: "2 ^ n \<le> x" "x < 2 ^ Suc n"
  have "bitlen x \<le> int (Suc n)"
    using a(2) bitlen_le_iff_power [of x "Suc n"] by (simp add: nat_add_distrib)
  moreover have "int n + 1 \<le> bitlen x"
    using a(1) bitlen_ge_iff_power [of "int n + 1" x] by (simp add: nat_add_distrib)
  ultimately show ?thesis by simp
qed

text \<open>\<open>ilog2\<close> is the binary exponent.\<close>

lemma ilog2_bounds:
  assumes "0 < x"
  shows "2 powi ilog2 x \<le> x \<and> x < 2 powi (ilog2 x + 1)"
proof (cases "1 \<le> x")
  case True
  define n where "n = \<lfloor>x\<rfloor>"
  have n1: "1 \<le> n" using True by (simp add: n_def)
  then have n0: "0 < n" by simp
  define k where "k = nat (bitlen n - 1)"
  have bl: "bitlen n = int k + 1"
    using bitlen_ge_iff_power [of 1 n] n1 by (simp add: k_def)
  have b: "2 ^ k \<le> n" "n < 2 ^ Suc k"
    using bitlen_bounds [OF n0] by (simp_all add: bl k_def [symmetric] nat_add_distrib)
  have il: "ilog2 x = int k"
    using True by (simp add: ilog2_def n_def [symmetric] bl)
  have "(2::rat) ^ k = of_int (2 ^ k)" by simp
  also have "\<dots> \<le> of_int n" using b(1) by (simp only: of_int_le_iff)
  also have "\<dots> \<le> x" by (simp add: n_def)
  finally have lo: "(2::rat) ^ k \<le> x" .
  have "n + 1 \<le> 2 ^ Suc k" using b(2) by simp
  then have "(of_int (n + 1) :: rat) \<le> of_int (2 ^ Suc k)" by (simp only: of_int_le_iff)
  moreover have "x < of_int (n + 1)" using floor_correct [of x] by (simp add: n_def)
  ultimately have hi: "x < 2 ^ Suc k" by simp
  show ?thesis
    using lo hi by (simp add: il power_int_def nat_add_distrib)
next
  case False
  define y where "y = 1 / x"
  have y1: "1 < y" using False assms by (simp add: y_def)
  define m where "m = \<lceil>y\<rceil> - 1"
  have m1: "1 \<le> m" using y1 by (simp add: m_def less_ceiling_iff)
  then have m0: "0 < m" by simp
  define k where "k = nat (bitlen m - 1)"
  have bl: "bitlen m = int k + 1"
    using bitlen_ge_iff_power [of 1 m] m1 by (simp add: k_def)
  have b: "2 ^ k \<le> m" "m < 2 ^ Suc k"
    using bitlen_bounds [OF m0] by (simp_all add: bl k_def [symmetric] nat_add_distrib)
  have il: "ilog2 x = - (int k + 1)"
    using False by (simp add: ilog2_def y_def [symmetric] m_def [symmetric] bl)
  have "y \<le> of_int (m + 1)" by (simp add: m_def)
  also have "\<dots> \<le> of_int (2 ^ Suc k)" using b(2) by (simp only: of_int_le_iff)
  finally have up: "y \<le> 2 ^ Suc k" by simp
  have "(2::rat) ^ k = of_int (2 ^ k)" by simp
  also have "\<dots> \<le> of_int m" using b(1) by (simp only: of_int_le_iff)
  also have "\<dots> < y" using ceiling_correct [of y] by (simp add: m_def)
  finally have dn: "2 ^ k < y" .
  have xy: "x = 1 / y" by (simp add: y_def)
  have lo: "1 / 2 ^ Suc k \<le> x"
    unfolding xy using up y1 by (simp add: field_simps)
  have hi: "x < 1 / 2 ^ k"
    unfolding xy using dn y1 by (simp add: field_simps)
  have p1: "(2::rat) powi (- (int k + 1)) = 1 / 2 ^ Suc k"
    by (simp add: power_int_def nat_add_distrib field_simps)
  have p2: "(2::rat) powi (- (int k + 1) + 1) = 1 / 2 ^ k"
    by (cases k) (simp_all add: power_int_def nat_add_distrib field_simps)
  show ?thesis
    unfolding il p1 p2 using lo hi by simp
qed

text \<open>Rounding moves a value by at most half the spacing of the doubles around it.\<close>

lemma round_half_even_close: "\<bar>of_int (round_half_even y) - y\<bar> \<le> 1 / 2"
proof -
  define f where "f = \<lfloor>y\<rfloor>"
  define r where "r = y - of_int f"
  have r: "0 \<le> r" "r < 1"
    using floor_correct [of y] by (simp_all add: r_def f_def)
  have y: "y = of_int f + r"
    by (simp add: r_def)
  have rhe: "round_half_even y =
      (if r < 1 / 2 then f else if 1 / 2 < r then f + 1 else if even f then f else f + 1)"
    unfolding round_half_even_def Let_def f_def [symmetric] r_def [symmetric] ..
  have "round_half_even y = f \<and> r \<le> 1 / 2 \<or> round_half_even y = f + 1 \<and> 1 / 2 \<le> r"
    unfolding rhe by auto
  then show ?thesis
    using r by (auto simp: y abs_if)
qed

lemma round_double_close:
  assumes "round_double x = Finite s r"
  shows "\<bar>r - \<bar>x\<bar>\<bar> \<le> 2 powi (max (ilog2 \<bar>x\<bar>) (- 1022) - 52) / 2"
proof -
  define q :: rat where "q = 2 powi (max (ilog2 \<bar>x\<bar>) (- 1022) - 52)"
  define n :: rat where "n = of_int (round_half_even (\<bar>x\<bar> / q))"
  have q0: "0 < q" by (simp add: q_def)
  have r: "r = n * q"
    using assms by (simp add: round_double_def Let_def q_def n_def split: if_splits)
  have "r - \<bar>x\<bar> = (n - \<bar>x\<bar> / q) * q"
    using q0 by (simp add: r field_simps)
  then have "\<bar>r - \<bar>x\<bar>\<bar> = \<bar>n - \<bar>x\<bar> / q\<bar> * q"
    using q0 by (simp add: abs_mult)
  also have "\<dots> \<le> 1 / 2 * q"
    using round_half_even_close [of "\<bar>x\<bar> / q"] q0
    by (intro mult_right_mono) (simp_all add: n_def)
  finally show ?thesis by (simp add: q_def)
qed

text \<open>On integers below \<open>2 ^ 53\<close> in magnitude the operators of JavaScript numbers are
  those of the integers: such integers are doubles, and so is their difference when it
  is below \<open>2 ^ 53\<close> too.\<close>

lemma round_half_even_int: "round_half_even (of_int n) = n"
  by (simp add: round_half_even_def)

lemma round_double_pos:
  assumes "0 < d" and "d < 2 ^ 53"
  shows "round_double (of_int d) = Finite False (of_int d)"
proof -
  define k where "k = bitlen d - 1"
  have k0: "0 \<le> k"
    using assms(1) bitlen_ge_iff_power [of 1 d] by (simp add: k_def)
  have k52: "k \<le> 52"
    using assms(2) bitlen_le_iff_power [of d 53] by (simp add: k_def)
  define j where "j = nat (52 - k)"
  have il: "ilog2 (of_int d) = k"
    using assms(1) by (simp add: ilog2_def k_def)
  have e: "max k (- 1022) = k"
    using k0 by simp
  have q: "(2::rat) powi (k - 52) = 1 / 2 ^ j"
    using k52 by (simp add: power_int_def j_def field_simps)
  have scaled: "(of_int d :: rat) / (1 / 2 ^ j) = of_int (d * 2 ^ j)"
    by simp
  have unscaled: "(of_int (d * 2 ^ j) :: rat) * (1 / 2 ^ j) = of_int d"
    by simp
  have small: "\<not> (2::rat) powi 1024 \<le> of_int d"
  proof -
    have "(of_int d :: rat) < of_int (2 ^ 53)"
      using assms(2) by (simp only: of_int_less_iff)
    also have "\<dots> \<le> 2 powi 1024"
      by (simp add: power_int_def)
    finally show ?thesis by simp
  qed
  have pos: "\<not> (of_int d :: rat) < 0" "\<bar>of_int d :: rat\<bar> = of_int d"
    using assms(1) by simp_all
  show ?thesis
    unfolding round_double_def Let_def pos il e q scaled round_half_even_int unscaled
    using small assms(1) by simp
qed

lemma round_double_int:
  assumes "\<bar>d\<bar> < 2 ^ 53"
  shows "round_double (of_int d) = js_int d"
proof -
  consider "d = 0" | "0 < d" | "d < 0" by linarith
  then show ?thesis
  proof cases
    case 1
    then show ?thesis
      by (simp add: round_double_def js_int_def round_half_even_def Let_def)
  next
    case 2
    then show ?thesis
      using assms round_double_pos [of d] by (simp add: js_int_def)
  next
    case 3
    then have p: "0 < - d" "- d < 2 ^ 53"
      using assms by simp_all
    have m: "\<bar>of_int d :: rat\<bar> = of_int (- d)" "(of_int d :: rat) < 0"
      using 3 by simp_all
    have "round_double (of_int (- d)) = Finite False (of_int (- d))"
      using p by (rule round_double_pos)
    then show ?thesis
      using 3 m
      by (simp add: round_double_def js_int_def Let_def split: if_splits)
  qed
qed

lemma js_sub_int:
  assumes "\<bar>a - b\<bar> < 2 ^ 53"
  shows "js_sub (js_int a) (js_int b) = js_int (a - b)"
proof -
  have v: "js_value (a < 0) \<bar>of_int a\<bar> - js_value (b < 0) \<bar>of_int b\<bar> = of_int (a - b)"
    by (simp add: js_value_def)
  show ?thesis
  proof (cases "a = b")
    case True
    then show ?thesis
      by (simp add: js_int_def js_value_def)
  next
    case False
    then have "(of_int (a - b) :: rat) \<noteq> 0" by simp
    then show ?thesis
      using round_double_int [OF assms]
      by (simp add: js_int_def [of a] js_int_def [of b] v Let_def del: of_int_diff)
  qed
qed

lemma js_le_int: "js_le (js_int a) (js_int b) = (a \<le> b)"
  by (simp add: js_int_def js_value_def)

lemma js_strict_eq_int: "js_strict_eq (js_int a) (js_int b) = (a = b)"
  by (simp add: js_int_def js_value_def)

lemma js_int_inject: "(js_int a = js_int b) = (a = b)"
  by (auto simp: js_int_def)

text \<open>Beyond \<open>2 ^ 53\<close> a difference of integers is rounded: \<open>5 - (- 2 ^ 53)\<close> is the
  double \<open>2 ^ 53 + 4\<close>, not \<open>2 ^ 53 + 5\<close>, and \<open>(2 ^ 53 + 2) - 1\<close> is the double
  \<open>2 ^ 53\<close>.\<close>

lemma js_sub_rounds:
  "js_sub (js_int 5) (js_int (- 9007199254740992)) = js_int 9007199254740996"
proof -
  have b: "bitlen 9007199254740997 = 54"
  proof -
    have "bitlen 9007199254740997 \<le> 54"
      using bitlen_le_iff_power [of 9007199254740997 54] by simp
    moreover have "54 \<le> bitlen 9007199254740997"
      using bitlen_ge_iff_power [of 54 9007199254740997] by simp
    ultimately show ?thesis by simp
  qed
  have f: "\<lfloor>9007199254740997 / 2 :: rat\<rfloor> = 4503599627370498"
    by (simp add: floor_eq_iff)
  show ?thesis
    by (simp add: js_int_def js_value_def round_double_def ilog2_def b round_half_even_def
        Let_def f)
qed

lemma js_sub_rounds_tie:
  "js_sub (js_int 9007199254740994) (js_int 1) = js_int 9007199254740992"
proof -
  have b: "bitlen 9007199254740993 = 54"
    using bitlen_eqI [of 53 9007199254740993] by simp
  have f: "\<lfloor>9007199254740993 / 2 :: rat\<rfloor> = 4503599627370496"
    by (simp add: floor_eq_iff)
  show ?thesis
    by (simp add: js_int_def js_value_def round_double_def ilog2_def b round_half_even_def
        Let_def f)
qed

subsection \<open>The sweep over the listings\<close>

lemma pl_items:
  "listings (process_expired_listing d s) i =
     (if i = e_item d then map_option (\<lambda>l. l\<lparr>l_hidden := True\<rparr>) (listings s i) else listings s i)"
  by (cases "listings s (e_item d)")
     (simp_all add: process_expired_listing_def Listing_getListingById_def Listing_hideSwitch_def
        Listing_Expiring_delete_def Let_def)

lemma pl_exps:
  "listing_exps (process_expired_listing d s) =
     (if listings s (e_item d) = None then listing_exps s
      else filter (\<lambda>e. e_id e \<noteq> e_id d) (listing_exps s))"
  by (cases "listings s (e_item d)")
     (simp_all add: process_expired_listing_def Listing_getListingById_def Listing_hideSwitch_def
        Listing_Expiring_delete_def Expiring_delete_def Let_def)

lemma pl_frame:
  "requests (process_expired_listing d s) = requests s"
  "request_exps (process_expired_listing d s) = request_exps s"
  "offers (process_expired_listing d s) = offers s"
  "claims (process_expired_listing d s) = claims s"
  "tagged (process_expired_listing d s) = tagged s"
  "next_id (process_expired_listing d s) = next_id s"
  by (cases "listings s (e_item d)";
      simp add: process_expired_listing_def Listing_getListingById_def Listing_hideSwitch_def
        Listing_Expiring_delete_def Let_def)+

lemma pl_stale: "listings s (e_item d) = None \<Longrightarrow> process_expired_listing d s = s"
  by (simp add: process_expired_listing_def Listing_getListingById_def)

lemma fold_pl_items:
  "listings (fold process_expired_listing ds s) i =
     (if i \<in> e_item ` set ds then map_option (\<lambda>l. l\<lparr>l_hidden := True\<rparr>) (listings s i)
      else listings s i)"
proof (induction ds arbitrary: s)
  case Nil
  show ?case by simp
next
  case (Cons d ds)
  show ?case
    by (cases "listings s i") (auto simp: Cons.IH pl_items)
qed

lemma fold_pl_exps:
  "listing_exps (fold process_expired_listing ds s) =
     filter (\<lambda>e. \<forall>d\<in>set ds. listings s (e_item d) \<noteq> None \<longrightarrow> e_id e \<noteq> e_id d) (listing_exps s)"
proof (induction ds arbitrary: s)
  case Nil
  show ?case by simp
next
  case (Cons d ds)
  have same: "\<And>j. (listings (process_expired_listing d s) j = None) = (listings s j = None)"
    by (simp add: pl_items)
  show ?case
    by (simp add: Cons.IH pl_exps same)
qed

lemma fold_pl_frame:
  "requests (fold process_expired_listing ds s) = requests s"
  "request_exps (fold process_expired_listing ds s) = request_exps s"
  "offers (fold process_expired_listing ds s) = offers s"
  "claims (fold process_expired_listing ds s) = claims s"
  "tagged (fold process_expired_listing ds s) = tagged s"
  "next_id (fold process_expired_listing ds s) = next_id s"
  by (induction ds arbitrary: s; simp add: pl_frame)+

lemma fold_pl_stale:
  "\<forall>d\<in>set ds. listings s (e_item d) = None \<Longrightarrow> fold process_expired_listing ds s = s"
  by (induction ds arbitrary: s) (simp_all add: pl_stale)

lemma hl_items:
  "listings (handleListingsExpired now s) i =
     (if i \<in> e_item ` set (Expiring_getAllExpired now (listing_exps s))
      then map_option (\<lambda>l. l\<lparr>l_hidden := True\<rparr>) (listings s i)
      else listings s i)"
  by (simp add: handleListingsExpired_def Let_def fold_pl_items)

lemma hl_exps:
  "listing_exps (handleListingsExpired now s) =
     filter (\<lambda>e. \<forall>d\<in>set (Expiring_getAllExpired now (listing_exps s)).
                   listings s (e_item d) \<noteq> None \<longrightarrow> e_id e \<noteq> e_id d)
       (listing_exps s)"
  by (simp add: handleListingsExpired_def Let_def fold_pl_exps)

lemma hl_frame:
  "requests (handleListingsExpired now s) = requests s"
  "request_exps (handleListingsExpired now s) = request_exps s"
  "offers (handleListingsExpired now s) = offers s"
  "claims (handleListingsExpired now s) = claims s"
  "tagged (handleListingsExpired now s) = tagged s"
  "next_id (handleListingsExpired now s) = next_id s"
  by (simp_all add: handleListingsExpired_def Let_def fold_pl_frame)

lemma hl_stale:
  "\<forall>d\<in>set (Expiring_getAllExpired now (listing_exps s)). listings s (e_item d) = None
     \<Longrightarrow> handleListingsExpired now s = s"
  by (simp add: handleListingsExpired_def Let_def fold_pl_stale)

lemma hl_done:
  assumes "d \<in> set (Expiring_getAllExpired now (listing_exps (handleListingsExpired now s)))"
  shows "listings (handleListingsExpired now s) (e_item d) = None"
proof -
  from assms have "d \<in> set (Expiring_getAllExpired now (listing_exps s))"
    and "listings s (e_item d) \<noteq> None \<longrightarrow> e_id d \<noteq> e_id d"
    by (auto simp: hl_exps Expiring_getAllExpired_def)
  then have "listings s (e_item d) = None" by simp
  then show ?thesis by (simp add: hl_items)
qed


subsection \<open>The sweep over the requests\<close>

lemma pr_items:
  "requests (process_expired_request d s) i =
     (if i = e_item d then map_option (\<lambda>r. r\<lparr>r_hidden := True\<rparr>) (requests s i) else requests s i)"
  by (cases "requests s (e_item d)")
     (simp_all add: process_expired_request_def Requesting_getRequestById_def Requesting_hideSwitch_def
        Request_Expiring_delete_def Let_def)

lemma pr_exps:
  "request_exps (process_expired_request d s) =
     (if requests s (e_item d) = None then request_exps s
      else filter (\<lambda>e. e_id e \<noteq> e_id d) (request_exps s))"
  by (cases "requests s (e_item d)")
     (simp_all add: process_expired_request_def Requesting_getRequestById_def Requesting_hideSwitch_def
        Request_Expiring_delete_def Expiring_delete_def Let_def)

lemma pr_frame:
  "listings (process_expired_request d s) = listings s"
  "listing_exps (process_expired_request d s) = listing_exps s"
  "offers (process_expired_request d s) = offers s"
  "claims (process_expired_request d s) = claims s"
  "tagged (process_expired_request d s) = tagged s"
  "next_id (process_expired_request d s) = next_id s"
  by (cases "requests s (e_item d)";
      simp add: process_expired_request_def Requesting_getRequestById_def Requesting_hideSwitch_def
        Request_Expiring_delete_def Let_def)+

lemma pr_stale: "requests s (e_item d) = None \<Longrightarrow> process_expired_request d s = s"
  by (simp add: process_expired_request_def Requesting_getRequestById_def)

lemma fold_pr_items:
  "requests (fold process_expired_request ds s) i =
     (if i \<in> e_item ` set ds then map_option (\<lambda>r. r\<lparr>r_hidden := True\<rparr>) (requests s i)
      else requests s i)"
proof (induction ds arbitrary: s)
  case Nil
  show ?case by simp
next
  case (Cons d ds)
  show ?case
    by (cases "requests s i") (auto simp: Cons.IH pr_items)
qed

lemma fold_pr_exps:
  "request_exps (fold process_expired_request ds s) =
     filter (\<lambda>e. \<forall>d\<in>set ds. requests s (e_item d) \<noteq> None \<longrightarrow> e_id e \<noteq> e_id d) (request_exps s)"
proof (induction ds arbitrary: s)
  case Nil
  show ?case by simp
next
  case (Cons d ds)
  have same: "\<And>j. (requests (process_expired_request d s) j = None) = (requests s j = None)"
    by (simp add: pr_items)
  show ?case
    by (simp add: Cons.IH pr_exps same)
qed

lemma fold_pr_frame:
  "listings (fold process_expired_request ds s) = listings s"
  "listing_exps (fold process_expired_request ds s) = listing_exps s"
  "offers (fold process_expired_request ds s) = offers s"
  "claims (fold process_expired_request ds s) = claims s"
  "tagged (fold process_expired_request ds s) = tagged s"
  "next_id (fold process_expired_request ds s) = next_id s"
  by (induction ds arbitrary: s; simp add: pr_frame)+

lemma fold_pr_stale:
  "\<forall>d\<in>set ds. requests s (e_item d) = None \<Longrightarrow> fold process_expired_request ds s = s"
  by (induction ds arbitrary: s) (simp_all add: pr_stale)

lemma hr_items:
  "requests (handleRequestsExpired now s) i =
     (if i \<in> e_item ` set (Expiring_getAllExpired now (request_exps s))
      then map_option (\<lambda>r. r\<lparr>r_hidden := True\<rparr>) (requests s i)
      else requests s i)"
  by (simp add: handleRequestsExpired_def Let_def fold_pr_items)

lemma hr_exps:
  "request_exps (handleRequestsExpired now s) =
     filter (\<lambda>e. \<forall>d\<in>set (Expiring_getAllExpired now (request_exps s)).
                   requests s (e_item d) \<noteq> None \<longrightarrow> e_id e \<noteq> e_id d)
       (request_exps s)"
  by (simp add: handleRequestsExpired_def Let_def fold_pr_exps)

lemma hr_frame:
  "listings (handleRequestsExpired now s) = listings s"
  "listing_exps (handleRequestsExpired now s) = listing_exps s"
  "offers (handleRequestsExpired now s) = offers s"
  "claims (handleRequestsExpired now s) = claims s"
  "tagged (handleRequestsExpired now s) = tagged s"
  "next_id (handleRequestsExpired now s) = next_id s"
  by (simp_all add: handleRequestsExpired_def Let_def fold_pr_frame)

lemma hr_stale:
  "\<forall>d\<in>set (Expiring_getAllExpired now (request_exps s)). requests s (e_item d) = None
     \<Longrightarrow> handleRequestsExpired now s = s"
  by (simp add: handleRequestsExpired_def Let_def fold_pr_stale)

lemma hr_done:
  assumes "d \<in> set (Expiring_getAllExpired now (request_exps (handleRequestsExpired now s)))"
  shows "requests (handleRequestsExpired now s) (e_item d) = None"
proof -
  from assms have "d \<in> set (Expiring_getAllExpired now (request_exps s))"
    and "requests s (e_item d) \<noteq> None \<longrightarrow> e_id d \<noteq> e_id d"
    by (auto simp: hr_exps Expiring_getAllExpired_def)
  then have "requests s (e_item d) = None" by simp
  then show ?thesis by (simp add: hr_items)
qed

subsection \<open>Claiming a listing\<close>

lemmas claim_defs =
  claim_def Listing_getListingById_def Claiming_claim_def Listing_editlisting_def
  Listing_hideSwitch_def Let_def

text \<open>
  C10, as the claim states it, fails: quantities are doubles, and a difference that is
  not a double is rounded. On listing 0 of the example stores, with quantity 5, the
  requested quantity \<open>- 2 ^ 53\<close> is at most the listing's quantity, a Claim is created,
  and the listing's new quantity is \<open>2 ^ 53 + 4\<close>, while the listing's quantity reduced
  by the claimed amount is \<open>2 ^ 53 + 5\<close>. Likewise a claim of 1 on a listing of quantity
  \<open>2 ^ 53 + 2\<close> leaves the quantity \<open>2 ^ 53\<close>, which is 2 less.
\<close>

theorem claim_rounding_counterexample:
  "listings demo_world 0 = Some demo_listing
   \<and> l_quantity demo_listing = js_int 5
   \<and> js_le (js_int (- 9007199254740992)) (l_quantity demo_listing)
   \<and> fst (claim 7 0 (js_int (- 9007199254740992)) demo_world) =
       Inr (Claimed 40
              \<lparr>c_claimer = 7, c_quantity = js_int (- 9007199254740992), c_listing = 0\<rparr>)
   \<and> listings (snd (claim 7 0 (js_int (- 9007199254740992)) demo_world)) 0 =
       Some (demo_listing\<lparr>l_quantity := js_int 9007199254740996\<rparr>)
   \<and> js_int 9007199254740996 \<noteq> js_int (5 - (- 9007199254740992))
   \<and> listings big_world 0 = Some (demo_listing\<lparr>l_quantity := js_int 9007199254740994\<rparr>)
   \<and> js_le (js_int 1) (js_int 9007199254740994)
   \<and> listings (snd (claim 7 0 (js_int 1) big_world)) 0 =
       Some (demo_listing\<lparr>l_quantity := js_int 9007199254740992\<rparr>)
   \<and> js_int 9007199254740992 \<noteq> js_int (9007199254740994 - 1)"
proof -
  have q: "l_quantity demo_listing = js_int 5"
    by (simp add: demo_listing_def)
  have le: "js_le (js_int (- 9007199254740992)) (js_int 5)"
    by (simp add: js_le_int)
  have ne: "\<not> js_strict_eq (js_int (- 9007199254740992)) (js_int 5)"
    by (simp add: js_strict_eq_int)
  have le': "js_le (js_int 1) (js_int 9007199254740994)"
    by (simp add: js_le_int)
  have ne': "\<not> js_strict_eq (js_int 1) (js_int 9007199254740994)"
    by (simp add: js_strict_eq_int)
  have first: "listings (snd (claim 7 0 (js_int (- 9007199254740992)) demo_world)) 0 =
      Some (demo_listing\<lparr>l_quantity := js_int 9007199254740996\<rparr>)"
    "fst (claim 7 0 (js_int (- 9007199254740992)) demo_world) =
       Inr (Claimed 40
              \<lparr>c_claimer = 7, c_quantity = js_int (- 9007199254740992), c_listing = 0\<rparr>)"
    using le ne by (simp_all add: demo_world_def claim_defs q js_sub_rounds)
  have second: "listings (snd (claim 7 0 (js_int 1) big_world)) 0 =
      Some (demo_listing\<lparr>l_quantity := js_int 9007199254740992\<rparr>)"
    using le' ne' by (simp add: big_world_def empty_world_def claim_defs js_sub_rounds_tie)
  show ?thesis
    using le le' first second
    by (simp add: q js_int_inject) (simp add: demo_world_def big_world_def empty_world_def)
qed

text \<open>
  C10, amended. A claim on an existing listing compares, subtracts and tests for
  equality as JavaScript does on doubles. If the requested quantity is at most the
  listing's quantity (\<^verbatim>\<open><=\<close>, so neither is NaN), a Claim is created (the reply carries it,
  and the Claim store holds it under a new id), the listing's quantity becomes the double
  nearest to the difference, nothing else of the listing changing, and the listing is
  hidden as well when the two quantities are equal (\<^verbatim>\<open>===\<close>). If the comparison is false
  (the requested quantity exceeds the listing's, or one of them is NaN), no store
  changes, no Claim is created, and the call returns a message, not an error. On
  integers \<open>a\<close> (the listing's quantity) and \<open>b\<close> (the requested one) below \<open>2 ^ 53\<close> in
  magnitude, with a difference below \<open>2 ^ 53\<close> in magnitude, this is the claim as stated:
  for \<open>b < a\<close> the new quantity is \<open>a - b\<close>, for \<open>b = a\<close> it is 0 and the listing is
  hidden, for \<open>a < b\<close> the message is returned. (The store calls of the route are taken
  to succeed.)
\<close>

theorem claim_on_existing_listing:
  assumes "listings s oid = Some l"
  shows
    "(js_le quantity (l_quantity l) \<longrightarrow>
        fst (claim user oid quantity s) =
          Inr (Claimed (next_id s) \<lparr>c_claimer = user, c_quantity = quantity, c_listing = oid\<rparr>)
        \<and> claims (snd (claim user oid quantity s)) (next_id s) =
            Some \<lparr>c_claimer = user, c_quantity = quantity, c_listing = oid\<rparr>
        \<and> listings (snd (claim user oid quantity s)) oid =
            Some (l\<lparr>l_quantity := js_sub (l_quantity l) quantity,
                    l_hidden := (l_hidden l \<or> js_strict_eq quantity (l_quantity l))\<rparr>))
     \<and> (\<not> js_le quantity (l_quantity l) \<longrightarrow>
          claim user oid quantity s =
            (Inr (Message ''Attempted to claim more items than are available.''), s))
     \<and> (l_quantity l = js_int a \<and> quantity = js_int b
          \<and> \<bar>a\<bar> < 2 ^ 53 \<and> \<bar>b\<bar> < 2 ^ 53 \<and> \<bar>a - b\<bar> < 2 ^ 53 \<longrightarrow>
          (b \<le> a \<longrightarrow>
             fst (claim user oid quantity s) =
               Inr (Claimed (next_id s)
                      \<lparr>c_claimer = user, c_quantity = js_int b, c_listing = oid\<rparr>)
             \<and> claims (snd (claim user oid quantity s)) (next_id s) =
                 Some \<lparr>c_claimer = user, c_quantity = js_int b, c_listing = oid\<rparr>)
          \<and> (b < a \<longrightarrow>
               listings (snd (claim user oid quantity s)) oid =
                 Some (l\<lparr>l_quantity := js_int (a - b)\<rparr>))
          \<and> (b = a \<longrightarrow>
               listings (snd (claim user oid quantity s)) oid =
                 Some (l\<lparr>l_quantity := js_int 0, l_hidden := True\<rparr>))
          \<and> (a < b \<longrightarrow>
               claim user oid quantity s =
                 (Inr (Message ''Attempted to claim more items than are available.''), s)))"
proof (intro conjI impI)
  assume "js_le quantity (l_quantity l)"
  then show
    "fst (claim user oid quantity s) =
       Inr (Claimed (next_id s) \<lparr>c_claimer = user, c_quantity = quantity, c_listing = oid\<rparr>)"
    "claims (snd (claim user oid quantity s)) (next_id s) =
       Some \<lparr>c_claimer = user, c_quantity = quantity, c_listing = oid\<rparr>"
    "listings (snd (claim user oid quantity s)) oid =
       Some (l\<lparr>l_quantity := js_sub (l_quantity l) quantity,
               l_hidden := (l_hidden l \<or> js_strict_eq quantity (l_quantity l))\<rparr>)"
    using assms by (auto simp: claim_defs)
next
  assume "\<not> js_le quantity (l_quantity l)"
  then show "claim user oid quantity s =
      (Inr (Message ''Attempted to claim more items than are available.''), s)"
    using assms by (simp add: claim_defs)
next
  assume safe: "l_quantity l = js_int a \<and> quantity = js_int b
      \<and> \<bar>a\<bar> < 2 ^ 53 \<and> \<bar>b\<bar> < 2 ^ 53 \<and> \<bar>a - b\<bar> < 2 ^ 53"
  then have sub: "js_sub (js_int a) (js_int b) = js_int (a - b)"
    by (simp add: js_sub_int)
  show "fst (claim user oid quantity s) =
      Inr (Claimed (next_id s) \<lparr>c_claimer = user, c_quantity = js_int b, c_listing = oid\<rparr>)"
    if "b \<le> a"
    using that assms safe by (simp add: claim_defs js_le_int)
  show "claims (snd (claim user oid quantity s)) (next_id s) =
      Some \<lparr>c_claimer = user, c_quantity = js_int b, c_listing = oid\<rparr>"
    if "b \<le> a"
    using that assms safe by (simp add: claim_defs js_le_int)
  show "listings (snd (claim user oid quantity s)) oid = Some (l\<lparr>l_quantity := js_int (a - b)\<rparr>)"
    if "b < a"
    using that assms safe sub by (simp add: claim_defs js_le_int js_strict_eq_int)
  show "listings (snd (claim user oid quantity s)) oid =
      Some (l\<lparr>l_quantity := js_int 0, l_hidden := True\<rparr>)"
    if "b = a"
    using that assms safe sub by (simp add: claim_defs js_le_int js_strict_eq_int)
  show "claim user oid quantity s =
      (Inr (Message ''Attempted to claim more items than are available.''), s)"
    if "a < b"
    using that assms safe by (simp add: claim_defs js_le_int)
qed

theorem claim_on_existing_listing_witness:
  "listings demo_world 0 = Some demo_listing
   \<and> l_quantity demo_listing = js_int 5
   \<and> fst (claim 7 0 (js_int 3) demo_world) =
       Inr (Claimed 40 \<lparr>c_claimer = 7, c_quantity = js_int 3, c_listing = 0\<rparr>)
   \<and> claims (snd (claim 7 0 (js_int 3) demo_world)) 40 =
       Some \<lparr>c_claimer = 7, c_quantity = js_int 3, c_listing = 0\<rparr>
   \<and> listings (snd (claim 7 0 (js_int 3) demo_world)) 0 =
       Some (demo_listing\<lparr>l_quantity := js_int 2\<rparr>)
   \<and> listings (snd (claim 7 0 (js_int 5) demo_world)) 0 =
       Some (demo_listing\<lparr>l_quantity := js_int 0, l_hidden := True\<rparr>)
   \<and> claim 7 0 (js_int 6) demo_world =
       (Inr (Message ''Attempted to claim more items than are available.''), demo_world)
   \<and> js_le NaN (l_quantity demo_listing) = False
   \<and> claim 7 0 NaN demo_world =
       (Inr (Message ''Attempted to claim more items than are available.''), demo_world)"
proof -
  have h: "listings demo_world 0 = Some demo_listing"
    by (simp add: demo_world_def)
  have q: "l_quantity demo_listing = js_int 5"
    by (simp add: demo_listing_def)
  have n: "next_id demo_world = 40"
    by (simp add: demo_world_def)
  show ?thesis
    using h q n
      claim_on_existing_listing [OF h, of "js_int 3" 7 5 3]
      claim_on_existing_listing [OF h, of "js_int 5" 7 5 5]
      claim_on_existing_listing [OF h, of "js_int 6" 7 5 6]
      claim_on_existing_listing [OF h, of NaN 7 5 0]
    by simp
qed

subsection \<open>Accepting an offer\<close>

text \<open>
  C5. For an existing offer whose parent request exists, \<open>acceptOffer\<close> succeeds; after
  it the parent request is hidden (its other fields as before), the offer is in the
  accepted state, and every other offer, the siblings on the same request among them,
  is in the store exactly as before.
\<close>

theorem acceptOffer_hides_request_and_accepts:
  assumes "offers s oid = Some offer" and "requests s (o_item offer) = Some r"
  shows
    "fst (acceptOffer user oid s) = Inr ''Accepted offer!''
     \<and> requests (snd (acceptOffer user oid s)) (o_item offer) = Some (r\<lparr>r_hidden := True\<rparr>)
     \<and> offers (snd (acceptOffer user oid s)) oid = Some (offer\<lparr>o_state := Accepted\<rparr>)
     \<and> (\<forall>k. k \<noteq> oid \<longrightarrow> offers (snd (acceptOffer user oid s)) k = offers s k)"
  using assms
  by (auto simp: acceptOffer_def Offering_getOfferById_def Requesting_hideSwitch_def
      Offering_accept_def Let_def)

theorem acceptOffer_hides_request_and_accepts_witness:
  "offers demo_world 30 = Some \<lparr>o_offerer = 3, o_item = 2, o_state = Active\<rparr>
   \<and> requests demo_world 2 = Some demo_request
   \<and> fst (acceptOffer 2 30 demo_world) = Inr ''Accepted offer!''
   \<and> requests (snd (acceptOffer 2 30 demo_world)) 2 = Some (demo_request\<lparr>r_hidden := True\<rparr>)
   \<and> offers (snd (acceptOffer 2 30 demo_world)) 30 =
       Some \<lparr>o_offerer = 3, o_item = 2, o_state = Accepted\<rparr>
   \<and> offers (snd (acceptOffer 2 30 demo_world)) 31 =
       Some \<lparr>o_offerer = 4, o_item = 2, o_state = Active\<rparr>"
proof -
  have h1: "offers demo_world 30 = Some \<lparr>o_offerer = 3, o_item = 2, o_state = Active\<rparr>"
    by (simp add: demo_world_def)
  have h2: "requests demo_world (o_item \<lparr>o_offerer = 3, o_item = 2, o_state = Active\<rparr>)
              = Some demo_request"
    by (simp add: demo_world_def)
  show ?thesis
    using h1 h2 acceptOffer_hides_request_and_accepts [OF h1 h2, of 2]
    by (simp add: demo_world_def)
qed

subsection \<open>One tick of the sweep\<close>

lemmas sweep_defs =
  cron_tick_def handleListingsExpired_def handleRequestsExpired_def
  Expiring_getAllExpired_def expired_def process_expired_listing_def
  process_expired_request_def Listing_getListingById_def Requesting_getRequestById_def
  Listing_hideSwitch_def Requesting_hideSwitch_def Listing_Expiring_delete_def
  Request_Expiring_delete_def Expiring_delete_def Let_def

lemma tick_listings:
  "listings (cron_tick now s) = listings (handleListingsExpired now s)"
  "listing_exps (cron_tick now s) = listing_exps (handleListingsExpired now s)"
  by (simp_all add: cron_tick_def hr_frame)

lemma tick_requests:
  "requests (cron_tick now s) i =
     (if i \<in> e_item ` set (Expiring_getAllExpired now (request_exps s))
      then map_option (\<lambda>r. r\<lparr>r_hidden := True\<rparr>) (requests s i)
      else requests s i)"
  "request_exps (cron_tick now s) =
     filter (\<lambda>e. \<forall>d\<in>set (Expiring_getAllExpired now (request_exps s)).
                   requests s (e_item d) \<noteq> None \<longrightarrow> e_id e \<noteq> e_id d)
       (request_exps s)"
  by (simp_all add: cron_tick_def hr_items hr_exps hl_frame)

lemma unique_ids_eq:
  "unique_ids docs \<Longrightarrow> d \<in> set docs \<Longrightarrow> d' \<in> set docs \<Longrightarrow> e_id d = e_id d' \<Longrightarrow> d = d'"
  by (auto simp: unique_ids_def distinct_map dest: inj_onD)

text \<open>
  C2. Let a record of the listing (request) expirations have its target instant at or
  before now, and let the item it references exist. After one tick the item is hidden
  with its other fields as before; if it was hidden already it is the same document as
  before; and no record with the id of that record is left in the expiration store.
  (The store calls of the tick are taken to succeed: the stores are reachable.)
\<close>

theorem sweep_hides_expired:
  assumes "expired now d"
  shows
    "(d \<in> set (listing_exps s) \<and> listings s (e_item d) = Some l \<longrightarrow>
        listings (cron_tick now s) (e_item d) = Some (l\<lparr>l_hidden := True\<rparr>)
        \<and> (l_hidden l \<longrightarrow> listings (cron_tick now s) (e_item d) = Some l)
        \<and> e_id d \<notin> e_id ` set (listing_exps (cron_tick now s)))
     \<and> (d \<in> set (request_exps s) \<and> requests s (e_item d) = Some r \<longrightarrow>
        requests (cron_tick now s) (e_item d) = Some (r\<lparr>r_hidden := True\<rparr>)
        \<and> (r_hidden r \<longrightarrow> requests (cron_tick now s) (e_item d) = Some r)
        \<and> e_id d \<notin> e_id ` set (request_exps (cron_tick now s)))"
proof (intro conjI impI)
  assume a: "d \<in> set (listing_exps s) \<and> listings s (e_item d) = Some l"
  with assms have ex: "d \<in> set (Expiring_getAllExpired now (listing_exps s))"
    by (simp add: Expiring_getAllExpired_def)
  then show "listings (cron_tick now s) (e_item d) = Some (l\<lparr>l_hidden := True\<rparr>)"
    using a by (simp add: tick_listings hl_items)
  then show "listings (cron_tick now s) (e_item d) = Some l" if "l_hidden l"
    using that by simp
  show "e_id d \<notin> e_id ` set (listing_exps (cron_tick now s))"
    using ex a by (auto simp: tick_listings hl_exps)
next
  assume a: "d \<in> set (request_exps s) \<and> requests s (e_item d) = Some r"
  with assms have ex: "d \<in> set (Expiring_getAllExpired now (request_exps s))"
    by (simp add: Expiring_getAllExpired_def)
  then show "requests (cron_tick now s) (e_item d) = Some (r\<lparr>r_hidden := True\<rparr>)"
    using a by (simp add: tick_requests)
  then show "requests (cron_tick now s) (e_item d) = Some r" if "r_hidden r"
    using that by simp
  show "e_id d \<notin> e_id ` set (request_exps (cron_tick now s))"
    using ex a by (auto simp: tick_requests)
qed

theorem sweep_hides_expired_witness:
  "expired (6, 0) \<lparr>e_id = 10, e_item = 0, e_date = 5, e_time = 0\<rparr>
   \<and> \<lparr>e_id = 10, e_item = 0, e_date = 5, e_time = 0\<rparr> \<in> set (listing_exps demo_world)
   \<and> listings demo_world 0 = Some demo_listing
   \<and> listings (cron_tick (6, 0) demo_world) 0 = Some (demo_listing\<lparr>l_hidden := True\<rparr>)
   \<and> 10 \<notin> e_id ` set (listing_exps (cron_tick (6, 0) demo_world))
   \<and> \<lparr>e_id = 11, e_item = 1, e_date = 5, e_time = 0\<rparr> \<in> set (listing_exps demo_world)
   \<and> listings demo_world 1 = Some (demo_listing\<lparr>l_hidden := True\<rparr>)
   \<and> listings (cron_tick (6, 0) demo_world) 1 = Some (demo_listing\<lparr>l_hidden := True\<rparr>)
   \<and> 11 \<notin> e_id ` set (listing_exps (cron_tick (6, 0) demo_world))
   \<and> expired (6, 0) \<lparr>e_id = 14, e_item = 3, e_date = 5, e_time = 0\<rparr>
   \<and> \<lparr>e_id = 14, e_item = 3, e_date = 5, e_time = 0\<rparr> \<in> set (request_exps demo_world)
   \<and> requests demo_world 3 = Some (demo_request\<lparr>r_hidden := True\<rparr>)
   \<and> requests (cron_tick (6, 0) demo_world) 3 = Some (demo_request\<lparr>r_hidden := True\<rparr>)
   \<and> 14 \<notin> e_id ` set (request_exps (cron_tick (6, 0) demo_world))"
proof -
  have h1: "expired (6, 0) \<lparr>e_id = 10, e_item = 0, e_date = 5, e_time = 0\<rparr>"
    by (simp add: expired_def)
  have h2: "expired (6, 0) \<lparr>e_id = 14, e_item = 3, e_date = 5, e_time = 0\<rparr>"
    by (simp add: expired_def)
  have h3: "expired (6, 0) \<lparr>e_id = 11, e_item = 1, e_date = 5, e_time = 0\<rparr>"
    by (simp add: expired_def)
  show ?thesis
    using h1 h2
      sweep_hides_expired [OF h1, of demo_world demo_listing demo_request]
      sweep_hides_expired [OF h3, of demo_world "demo_listing\<lparr>l_hidden := True\<rparr>" demo_request]
      sweep_hides_expired [OF h2, of demo_world demo_listing "demo_request\<lparr>r_hidden := True\<rparr>"]
    by (simp add: demo_world_def)
qed

text \<open>
  C6. A second tick at the same instant, right after the first, changes nothing: the
  stores, the id counter and the log of writes are those the first tick left. A tick
  returns the stores and lets no error out, whatever it finds.
\<close>

theorem sweep_twice:
  "cron_tick now (cron_tick now s) = cron_tick now s"
proof -
  let ?s1 = "handleListingsExpired now s"
  let ?s2 = "handleRequestsExpired now ?s1"
  have "\<forall>d\<in>set (Expiring_getAllExpired now (listing_exps ?s2)). listings ?s2 (e_item d) = None"
    using hl_done [of _ now s] by (simp add: hr_frame)
  then have l: "handleListingsExpired now ?s2 = ?s2"
    by (rule hl_stale)
  have "\<forall>d\<in>set (Expiring_getAllExpired now (request_exps ?s2)). requests ?s2 (e_item d) = None"
    using hr_done [of _ now ?s1] by simp
  then have r: "handleRequestsExpired now ?s2 = ?s2"
    by (rule hr_stale)
  show ?thesis
    by (simp add: cron_tick_def l r)
qed

text \<open>
  C9, as the claim states it, fails: record 12 of the example stores is expired and its
  listing 20 does not exist, and the record is still in the store after a tick.
\<close>

theorem stale_record_counterexample:
  "expired (6, 0) \<lparr>e_id = 12, e_item = 20, e_date = 5, e_time = 0\<rparr>
   \<and> \<lparr>e_id = 12, e_item = 20, e_date = 5, e_time = 0\<rparr> \<in> set (listing_exps demo_world)
   \<and> listings demo_world 20 = None
   \<and> \<lparr>e_id = 12, e_item = 20, e_date = 5, e_time = 0\<rparr>
       \<in> set (listing_exps (cron_tick (6, 0) demo_world))"
  by (simp add: demo_world_def sweep_defs)

text \<open>
  C9, amended. Let a record of the listing (request) expirations have its target
  instant at or before now, and let the item it references not exist. One tick does not
  delete the record: it is still in the store after the tick (its id being its own, as
  the \<^verbatim>\<open>_id\<close> of a document is), and the item is still missing. Neither branch of the loop
  body applies to a missing item.
\<close>

theorem sweep_keeps_stale_record:
  assumes "expired now d"
  shows
    "(d \<in> set (listing_exps s) \<and> unique_ids (listing_exps s) \<and> listings s (e_item d) = None \<longrightarrow>
        d \<in> set (listing_exps (cron_tick now s)) \<and> listings (cron_tick now s) (e_item d) = None)
     \<and> (d \<in> set (request_exps s) \<and> unique_ids (request_exps s) \<and> requests s (e_item d) = None \<longrightarrow>
        d \<in> set (request_exps (cron_tick now s)) \<and> requests (cron_tick now s) (e_item d) = None)"
proof (intro conjI impI)
  assume a: "d \<in> set (listing_exps s) \<and> unique_ids (listing_exps s) \<and> listings s (e_item d) = None"
  have "e_id d \<noteq> e_id d'"
    if "d' \<in> set (Expiring_getAllExpired now (listing_exps s))" "listings s (e_item d') \<noteq> None" for d'
    using that a unique_ids_eq [of "listing_exps s" d d']
    by (auto simp: Expiring_getAllExpired_def)
  then show "d \<in> set (listing_exps (cron_tick now s))"
    using a by (auto simp: tick_listings hl_exps)
  show "listings (cron_tick now s) (e_item d) = None"
    using a by (simp add: tick_listings hl_items)
next
  assume a: "d \<in> set (request_exps s) \<and> unique_ids (request_exps s) \<and> requests s (e_item d) = None"
  have "e_id d \<noteq> e_id d'"
    if "d' \<in> set (Expiring_getAllExpired now (request_exps s))" "requests s (e_item d') \<noteq> None" for d'
    using that a unique_ids_eq [of "request_exps s" d d']
    by (auto simp: Expiring_getAllExpired_def)
  then show "d \<in> set (request_exps (cron_tick now s))"
    using a by (auto simp: tick_requests)
  show "requests (cron_tick now s) (e_item d) = None"
    using a by (simp add: tick_requests)
qed

theorem sweep_keeps_stale_record_witness:
  "expired (6, 0) \<lparr>e_id = 15, e_item = 21, e_date = 5, e_time = 0\<rparr>
   \<and> \<lparr>e_id = 15, e_item = 21, e_date = 5, e_time = 0\<rparr> \<in> set (request_exps demo_world)
   \<and> unique_ids (request_exps demo_world)
   \<and> requests demo_world 21 = None
   \<and> \<lparr>e_id = 15, e_item = 21, e_date = 5, e_time = 0\<rparr>
       \<in> set (request_exps (cron_tick (6, 0) demo_world))
   \<and> requests (cron_tick (6, 0) demo_world) 21 = None
   \<and> expired (6, 0) \<lparr>e_id = 12, e_item = 20, e_date = 5, e_time = 0\<rparr>
   \<and> \<lparr>e_id = 12, e_item = 20, e_date = 5, e_time = 0\<rparr> \<in> set (listing_exps demo_world)
   \<and> unique_ids (listing_exps demo_world)
   \<and> listings demo_world 20 = None
   \<and> \<lparr>e_id = 12, e_item = 20, e_date = 5, e_time = 0\<rparr>
       \<in> set (listing_exps (cron_tick (6, 0) demo_world))
   \<and> listings (cron_tick (6, 0) demo_world) 20 = None"
proof -
  have h: "expired (6, 0) \<lparr>e_id = 15, e_item = 21, e_date = 5, e_time = 0\<rparr>"
    by (simp add: expired_def)
  have h': "expired (6, 0) \<lparr>e_id = 12, e_item = 20, e_date = 5, e_time = 0\<rparr>"
    by (simp add: expired_def)
  have u: "unique_ids (request_exps demo_world)"
    by (simp add: unique_ids_def demo_world_def)
  have u': "unique_ids (listing_exps demo_world)"
    by (simp add: unique_ids_def demo_world_def)
  show ?thesis
    using h h' u u' sweep_keeps_stale_record [OF h, of demo_world]
      sweep_keeps_stale_record [OF h', of demo_world]
    by (simp add: demo_world_def)
qed

subsection \<open>Creating an item with its expiration record\<close>

lemmas create_defs =
  addListing_def addListing_try_def addRequest_def addRequest_try_def Listing_addListing_def
  Requesting_add_def Listing_Expiring_allocate_def Request_Expiring_allocate_def
  Expiring_allocate_def Expiring_getExpireByItem_def Listing_delete_def Requesting_delete_def
  Tagging_tagItem_def Listing_getListingById_def Requesting_getRequestById_def Let_def

lemmas fault_defs = no_faults_def exp_fault_def double_fault_def tag_fault_def item_fault_def

text \<open>
  C1, as the claim states it, fails: when the write of the expiration record fails and
  the delete that rolls the listing back fails too, the \<^verbatim>\<open>catch\<close> block logs the second
  error and the listing stays; a lookup by its id finds it.
\<close>

theorem rollback_failure_counterexample:
  "item_write double_fault = None \<and> exp_write double_fault = Some (StoreFailure 1)
   \<and> fst (addListing double_fault 1 ''bread'' ''lobby'' ''bread.png'' (js_int 5) 9 ''fresh'' [''food'']
            empty_world) = Inl (StoreFailure 1)
   \<and> Listing_getListingById 0
        (snd (addListing double_fault 1 ''bread'' ''lobby'' ''bread.png'' (js_int 5) 9 ''fresh'' [''food'']
               empty_world))
       = Inr \<lparr>l_author = 1, l_name = ''bread'', l_meetup_location = ''lobby'',
              l_image = ''bread.png'', l_quantity = js_int 5, l_description = ''fresh'',
              l_tags = [''food''], l_hidden = False\<rparr>"
  by (simp add: create_defs fault_defs empty_world_def)

text \<open>
  C1, amended. Let the Item of an \<open>addListing\<close> or \<open>addRequest\<close> call be created (under
  the id the counter gives) and the write of its ExpirationRecord fail with an error.
  The call raises that very error in every case. If the compensating delete succeeds, the
  Item is deleted: a later lookup by its id returns NotFound. If the compensating delete
  fails as well, the Item stays in the store.
\<close>

theorem expiration_failure_rolls_back:
  assumes "item_write f = None" and "exp_write f = Some err"
  shows
    "fst (addListing f user name meetup_location img quantity expireDate description tags s)
       = Inl err
     \<and> (rollback_delete f = None \<longrightarrow>
          Listing_getListingById (next_id s)
            (snd (addListing f user name meetup_location img quantity expireDate description tags s))
          = Inl NotFoundError)
     \<and> (rollback_delete f \<noteq> None \<longrightarrow>
          Listing_getListingById (next_id s)
            (snd (addListing f user name meetup_location img quantity expireDate description tags s))
          \<noteq> Inl NotFoundError)
     \<and> fst (addRequest f ruser rname rquantity needBy rimg rdescription s) = Inl err
     \<and> (rollback_delete f = None \<longrightarrow>
          Requesting_getRequestById (next_id s)
            (snd (addRequest f ruser rname rquantity needBy rimg rdescription s))
          = Inl NotFoundError)
     \<and> (rollback_delete f \<noteq> None \<longrightarrow>
          Requesting_getRequestById (next_id s)
            (snd (addRequest f ruser rname rquantity needBy rimg rdescription s))
          \<noteq> Inl NotFoundError)"
  using assms by (auto simp: create_defs split: option.splits)

theorem expiration_failure_rolls_back_witness:
  "item_write exp_fault = None \<and> exp_write exp_fault = Some (StoreFailure 1)
   \<and> fst (addListing exp_fault 1 ''bread'' ''lobby'' ''bread.png'' (js_int 5) 9 ''fresh'' [''food'']
            empty_world) = Inl (StoreFailure 1)
   \<and> Listing_getListingById 0
        (snd (addListing exp_fault 1 ''bread'' ''lobby'' ''bread.png'' (js_int 5) 9 ''fresh'' [''food'']
               empty_world)) = Inl NotFoundError
   \<and> fst (addRequest exp_fault 2 ''ladder'' (js_int 1) 9 None None empty_world) = Inl (StoreFailure 1)
   \<and> Requesting_getRequestById 0
        (snd (addRequest exp_fault 2 ''ladder'' (js_int 1) 9 None None empty_world)) = Inl NotFoundError"
proof -
  have h1: "item_write exp_fault = None"
    by (simp add: fault_defs)
  have h2: "exp_write exp_fault = Some (StoreFailure 1)"
    by (simp add: fault_defs)
  have h3: "rollback_delete exp_fault = None"
    by (simp add: fault_defs)
  show ?thesis
    using h1 h2 h3
      expiration_failure_rolls_back [OF h1 h2, of 1 "''bread''" "''lobby''" "''bread.png''" "js_int 5" 9
        "''fresh''" "[''food'']" empty_world 2 "''ladder''" "js_int 1" 9 None None]
    by (simp add: empty_world_def)
qed

text \<open>
  C7, as the claim states it, fails. The tagging loop runs inside the \<^verbatim>\<open>try\<close> block of
  \<^verbatim>\<open>addListing\<close>, so a tag write that throws reaches the \<^verbatim>\<open>catch\<close> block: the call
  fails with the error of the tag write and the listing is deleted. Here the label \<open>x\<close>
  fails after the label \<open>food\<close> was written; the log of writes ends with the delete of
  the listing, and the expiration record written before is still in its store.
\<close>

theorem addListing_tag_failure:
  "fst (addListing tag_fault 1 ''bread'' ''lobby'' ''bread.png'' (js_int 5) 9 ''fresh'' [''food'', ''x'']
         empty_world) = Inl (StoreFailure 3)
   \<and> listings (snd (addListing tag_fault 1 ''bread'' ''lobby'' ''bread.png'' (js_int 5) 9 ''fresh''
                      [''food'', ''x''] empty_world)) 0 = None
   \<and> listing_exps (snd (addListing tag_fault 1 ''bread'' ''lobby'' ''bread.png'' (js_int 5) 9 ''fresh''
                          [''food'', ''x''] empty_world))
       = [\<lparr>e_id = 1, e_item = 0, e_date = 9, e_time = 0\<rparr>]
   \<and> calls (snd (addListing tag_fault 1 ''bread'' ''lobby'' ''bread.png'' (js_int 5) 9 ''fresh''
                   [''food'', ''x''] empty_world))
       = [ListingCreated 0, ListingExpAllocated 0, ItemTagged 0 ''food'', ListingDeleted 0]"
  by (simp add: create_defs fault_defs empty_world_def)

text \<open>The tagging loop stops at the first label whose write fails, with that error: the
  labels before it are written, that label and the ones after it are not.\<close>

lemma tag_loop_stops:
  "\<forall>t\<in>set pre. tag_write f t = None \<Longrightarrow> tag_write f tag = Some err \<Longrightarrow>
     tag_loop f oid (pre @ tag # post) s =
       (Some err,
        s\<lparr>tagged := tagged s @ map (Pair oid) pre,
          calls := calls s @ map (ItemTagged oid) pre\<rparr>)"
  by (induction pre arbitrary: s) (simp_all add: Tagging_tagItem_def)

text \<open>
  C7, amended. Let the Item and the ExpirationRecord of an \<open>addListing\<close> call be written,
  and let a tag write fail, the writes of the tags before it having succeeded. The
  failure is fatal: the call raises the error of the tag write. Tagging stops at the
  failing tag: the tags before it are linked to the listing, the failing tag and the
  tags after it are not, and no tag write is attempted after the failing one. The
  failure is compensated as an expiration failure is: the one write that follows is the
  delete of the listing, and, if that delete succeeds, a later lookup by the listing's id
  returns NotFound.
\<close>

theorem tag_failure_is_fatal:
  assumes "item_write f = None" and "exp_write f = None"
    and "\<forall>t\<in>set pre. tag_write f t = None" and "tag_write f tag = Some err"
  shows
    "fst (addListing f user name meetup_location img quantity expireDate description
            (pre @ tag # post) s) = Inl err
     \<and> tagged (snd (addListing f user name meetup_location img quantity expireDate description
                       (pre @ tag # post) s))
         = tagged s @ map (Pair (next_id s)) pre
     \<and> calls (snd (addListing f user name meetup_location img quantity expireDate description
                      (pre @ tag # post) s))
         = calls s @ [ListingCreated (next_id s), ListingExpAllocated (next_id s)]
           @ map (ItemTagged (next_id s)) pre
           @ (if rollback_delete f = None then [ListingDeleted (next_id s)] else [])
     \<and> (rollback_delete f = None \<longrightarrow>
          Listing_getListingById (next_id s)
            (snd (addListing f user name meetup_location img quantity expireDate description
                    (pre @ tag # post) s))
          = Inl NotFoundError)"
  using assms(1,2) tag_loop_stops [OF assms(3,4)]
  by (simp add: addListing_def addListing_try_def Listing_addListing_def Let_def
      Listing_Expiring_allocate_def Listing_delete_def Listing_getListingById_def
      split: option.splits)

theorem tag_failure_is_fatal_witness:
  "item_write tag_fault = None \<and> exp_write tag_fault = None
   \<and> tag_write tag_fault ''food'' = None
   \<and> tag_write tag_fault ''x'' = Some (StoreFailure 3)
   \<and> rollback_delete tag_fault = None
   \<and> fst (addListing tag_fault 1 ''bread'' ''lobby'' ''bread.png'' (js_int 5) 9 ''fresh''
            ([''food''] @ ''x'' # [''y'']) empty_world) = Inl (StoreFailure 3)
   \<and> tagged (snd (addListing tag_fault 1 ''bread'' ''lobby'' ''bread.png'' (js_int 5) 9
                    ''fresh'' ([''food''] @ ''x'' # [''y'']) empty_world)) = [(0, ''food'')]
   \<and> calls (snd (addListing tag_fault 1 ''bread'' ''lobby'' ''bread.png'' (js_int 5) 9
                   ''fresh'' ([''food''] @ ''x'' # [''y'']) empty_world))
       = [ListingCreated 0, ListingExpAllocated 0, ItemTagged 0 ''food'', ListingDeleted 0]
   \<and> Listing_getListingById 0
        (snd (addListing tag_fault 1 ''bread'' ''lobby'' ''bread.png'' (js_int 5) 9 ''fresh''
                ([''food''] @ ''x'' # [''y'']) empty_world)) = Inl NotFoundError"
proof -
  have h1: "item_write tag_fault = None" and h2: "exp_write tag_fault = None"
    and h4: "tag_write tag_fault ''x'' = Some (StoreFailure 3)"
    and h5: "rollback_delete tag_fault = None"
    by (simp_all add: tag_fault_def no_faults_def)
  have h3: "\<forall>t\<in>set [''food'']. tag_write tag_fault t = None"
    by (simp add: tag_fault_def no_faults_def)
  have n: "next_id empty_world = 0" "tagged empty_world = []" "calls empty_world = []"
    by (simp_all add: empty_world_def)
  show ?thesis
    using h1 h2 h3 h4 h5 n
      tag_failure_is_fatal [OF h1 h2 h3 h4, of 1 "''bread''" "''lobby''" "''bread.png''"
        "js_int 5" 9 "''fresh''" "[''y'']" empty_world]
    by simp
qed

text \<open>
  C8, as the claim states it, fails: when the expiration write and the compensating
  delete both fail, the call raises an error and the Item, which did not exist before
  the call, exists after it.
\<close>

theorem failed_request_counterexample:
  "fst (addRequest double_fault 2 ''ladder'' (js_int 1) 9 None None empty_world) = Inl (StoreFailure 1)
   \<and> requests empty_world 0 = None
   \<and> requests (snd (addRequest double_fault 2 ''ladder'' (js_int 1) 9 None None empty_world)) 0
       = Some \<lparr>r_requester = 2, r_name = ''ladder'', r_quantity = js_int 1, r_image = None,
               r_description = None, r_hidden = False\<rparr>"
  by (simp add: create_defs fault_defs empty_world_def)

text \<open>
  C8, amended. When an \<open>addListing\<close> or \<open>addRequest\<close> call fails because the write of the
  Item or the write of the ExpirationRecord failed, the call raises that error and has
  created no ExpirationRecord (the expiration store is as before); if the Item write
  failed the stores are untouched (the Item never existed); if the Item was written and
  the compensating delete succeeded, no Item is stored under its id; and if the
  compensating delete failed as well, the Item stays. (Nothing is said here of a call
  that fails after the ExpirationRecord was written, in the tagging or in the formatting
  of the reply.)
\<close>

theorem failed_creation_effects:
  assumes "item_write f \<noteq> None \<or> exp_write f \<noteq> None"
  shows
    "(item_write f = Some err \<or> item_write f = None \<and> exp_write f = Some err \<longrightarrow>
        fst (addListing f user name meetup_location img quantity expireDate description tags s)
          = Inl err
        \<and> fst (addRequest f ruser rname rquantity needBy rimg rdescription s) = Inl err)
     \<and> listing_exps
          (snd (addListing f user name meetup_location img quantity expireDate description tags s))
         = listing_exps s
     \<and> (item_write f \<noteq> None \<longrightarrow>
          snd (addListing f user name meetup_location img quantity expireDate description tags s) = s)
     \<and> (item_write f = None \<and> rollback_delete f = None \<longrightarrow>
          listings
            (snd (addListing f user name meetup_location img quantity expireDate description tags s))
            (next_id s) = None)
     \<and> (item_write f = None \<and> rollback_delete f \<noteq> None \<longrightarrow>
          listings
            (snd (addListing f user name meetup_location img quantity expireDate description tags s))
            (next_id s) \<noteq> None)
     \<and> request_exps (snd (addRequest f ruser rname rquantity needBy rimg rdescription s))
         = request_exps s
     \<and> (item_write f \<noteq> None \<longrightarrow>
          snd (addRequest f ruser rname rquantity needBy rimg rdescription s) = s)
     \<and> (item_write f = None \<and> rollback_delete f = None \<longrightarrow>
          requests (snd (addRequest f ruser rname rquantity needBy rimg rdescription s))
            (next_id s) = None)
     \<and> (item_write f = None \<and> rollback_delete f \<noteq> None \<longrightarrow>
          requests (snd (addRequest f ruser rname rquantity needBy rimg rdescription s))
            (next_id s) \<noteq> None)"
  using assms by (auto simp: create_defs split: option.splits)

theorem failed_creation_effects_witness:
  "exp_write exp_fault = Some (StoreFailure 1)
   \<and> fst (addListing exp_fault 1 ''bread'' ''lobby'' ''bread.png'' (js_int 5) 9 ''fresh''
            [''food''] demo_world) = Inl (StoreFailure 1)
   \<and> listing_exps (snd (addListing exp_fault 1 ''bread'' ''lobby'' ''bread.png'' (js_int 5) 9
                          ''fresh'' [''food''] demo_world)) = listing_exps demo_world
   \<and> listings (snd (addListing exp_fault 1 ''bread'' ''lobby'' ''bread.png'' (js_int 5) 9
                      ''fresh'' [''food''] demo_world)) 40 = None
   \<and> item_write item_fault = Some (StoreFailure 0)
   \<and> fst (addListing item_fault 1 ''bread'' ''lobby'' ''bread.png'' (js_int 5) 9 ''fresh''
            [''food''] demo_world) = Inl (StoreFailure 0)
   \<and> snd (addListing item_fault 1 ''bread'' ''lobby'' ''bread.png'' (js_int 5) 9 ''fresh''
            [''food''] demo_world) = demo_world
   \<and> fst (addRequest exp_fault 2 ''ladder'' (js_int 1) 9 None None demo_world)
       = Inl (StoreFailure 1)
   \<and> request_exps (snd (addRequest exp_fault 2 ''ladder'' (js_int 1) 9 None None demo_world))
       = request_exps demo_world
   \<and> requests (snd (addRequest exp_fault 2 ''ladder'' (js_int 1) 9 None None demo_world)) 40
       = None
   \<and> exp_write double_fault = Some (StoreFailure 1)
   \<and> rollback_delete double_fault = Some (StoreFailure 2)
   \<and> fst (addListing double_fault 1 ''bread'' ''lobby'' ''bread.png'' (js_int 5) 9 ''fresh''
            [''food''] demo_world) = Inl (StoreFailure 1)
   \<and> listing_exps (snd (addListing double_fault 1 ''bread'' ''lobby'' ''bread.png'' (js_int 5)
                          9 ''fresh'' [''food''] demo_world)) = listing_exps demo_world
   \<and> listings (snd (addListing double_fault 1 ''bread'' ''lobby'' ''bread.png'' (js_int 5) 9
                      ''fresh'' [''food''] demo_world)) 40 \<noteq> None"
proof -
  have f: "exp_write exp_fault = Some (StoreFailure 1)" "item_write exp_fault = None"
    "rollback_delete exp_fault = None" "item_write item_fault = Some (StoreFailure 0)"
    "exp_write double_fault = Some (StoreFailure 1)" "item_write double_fault = None"
    "rollback_delete double_fault = Some (StoreFailure 2)"
    by (simp_all add: fault_defs)
  have a: "item_write exp_fault \<noteq> None \<or> exp_write exp_fault \<noteq> None"
    "item_write item_fault \<noteq> None \<or> exp_write item_fault \<noteq> None"
    "item_write double_fault \<noteq> None \<or> exp_write double_fault \<noteq> None"
    by (simp_all add: fault_defs)
  have n: "next_id demo_world = 40"
    by (simp add: demo_world_def)
  show ?thesis
    using f n
      failed_creation_effects [OF a(1), of "StoreFailure 1" 1 "''bread''" "''lobby''"
        "''bread.png''" "js_int 5" 9 "''fresh''" "[''food'']" demo_world 2 "''ladder''" "js_int 1"
        9 None None]
      failed_creation_effects [OF a(2), of "StoreFailure 0" 1 "''bread''" "''lobby''"
        "''bread.png''" "js_int 5" 9 "''fresh''" "[''food'']" demo_world 2 "''ladder''" "js_int 1"
        9 None None]
      failed_creation_effects [OF a(3), of "StoreFailure 1" 1 "''bread''" "''lobby''"
        "''bread.png''" "js_int 5" 9 "''fresh''" "[''food'']" demo_world 2 "''ladder''" "js_int 1"
        9 None None]
    by simp
qed

subsection \<open>Deleting a request with its dependants\<close>

text \<open>The invariants of an expiration store are kept by its operations.\<close>

lemma allocate_one_record_per_item:
  "one_record_per_item docs \<Longrightarrow> one_record_per_item (Expiring_allocate rid item date time docs)"
proof (cases "Expiring_getExpireByItem item docs")
  case None
  then have "item \<notin> e_item ` set docs"
    by (auto simp: Expiring_getExpireByItem_def find_None_iff)
  then show "one_record_per_item docs \<Longrightarrow> ?thesis"
    by (simp add: one_record_per_item_def Expiring_allocate_def None)
next
  case (Some e)
  have "map e_item (map (\<lambda>e. if e_item e = item then e\<lparr>e_date := date, e_time := time\<rparr> else e) docs)
          = map e_item docs"
    by (induction docs) auto
  then show "one_record_per_item docs \<Longrightarrow> ?thesis"
    by (simp add: one_record_per_item_def Expiring_allocate_def Some del: map_map)
qed

lemma delete_one_record_per_item:
  "one_record_per_item docs \<Longrightarrow> one_record_per_item (Expiring_delete rid docs)"
  by (simp add: one_record_per_item_def Expiring_delete_def distinct_map_filter)

lemma allocate_unique_ids:
  "unique_ids docs \<Longrightarrow> rid \<notin> e_id ` set docs
     \<Longrightarrow> unique_ids (Expiring_allocate rid item date time docs)"
proof (cases "Expiring_getExpireByItem item docs")
  case None
  then show "unique_ids docs \<Longrightarrow> rid \<notin> e_id ` set docs \<Longrightarrow> ?thesis"
    by (simp add: unique_ids_def Expiring_allocate_def)
next
  case (Some e)
  have "map e_id (map (\<lambda>e. if e_item e = item then e\<lparr>e_date := date, e_time := time\<rparr> else e) docs)
          = map e_id docs"
    by (induction docs) auto
  then show "unique_ids docs \<Longrightarrow> rid \<notin> e_id ` set docs \<Longrightarrow> ?thesis"
    by (simp add: unique_ids_def Expiring_allocate_def Some del: map_map)
qed

lemma delete_unique_ids: "unique_ids docs \<Longrightarrow> unique_ids (Expiring_delete rid docs)"
  by (simp add: unique_ids_def Expiring_delete_def distinct_map_filter)

lemmas delete_defs =
  deleteListing_def deleteRequest_def Listing_assertAuthorIsUser_def Requesting_assertAuthor_def
  Listing_Expiring_delete_def Request_Expiring_delete_def Expiring_delete_def
  Offering_removeAllItemOffers_def Listing_delete_def Requesting_delete_def Let_def

lemmas delete_fault_defs = no_delete_faults_def cleanup_fault_def lookup_fault_def

lemma record_of_item_deleted:
  assumes "one_record_per_item docs"
  shows "oid \<notin> e_item ` set
           (case Expiring_getExpireByItem oid docs of
              None \<Rightarrow> docs
            | Some e \<Rightarrow> Expiring_delete (e_id e) docs)"
proof (cases "Expiring_getExpireByItem oid docs")
  case None
  then have "\<forall>e\<in>set docs. e_item e \<noteq> oid"
    by (simp add: Expiring_getExpireByItem_def find_None_iff)
  then show ?thesis
    by (auto simp: None)
next
  case (Some e0)
  then have e0: "e0 \<in> set docs" "e_item e0 = oid"
    by (auto simp: Expiring_getExpireByItem_def find_Some_iff)
  have "e = e0" if "e \<in> set docs" "e_item e = oid" for e
    using that e0 assms
    by (auto simp: one_record_per_item_def distinct_map dest: inj_onD)
  then show ?thesis
    by (auto simp: Some Expiring_delete_def)
qed

text \<open>
  C4, as the claim states it, fails: when the delete of the expiration record throws,
  the \<^verbatim>\<open>catch\<close> around the cleanup logs the error and the route goes on; the deletion
  succeeds, the request is gone, and its expiration record (record 13 of the example
  stores, for request 2) is still in the store.
\<close>

theorem cleanup_failure_counterexample:
  "requests demo_world 2 = Some demo_request \<and> r_requester demo_request = 2
   \<and> \<lparr>e_id = 13, e_item = 2, e_date = 5, e_time = 0\<rparr> \<in> set (request_exps demo_world)
   \<and> fst (deleteRequest cleanup_fault 2 2 demo_world) = Inr ()
   \<and> requests (snd (deleteRequest cleanup_fault 2 2 demo_world)) 2 = None
   \<and> \<lparr>e_id = 13, e_item = 2, e_date = 5, e_time = 0\<rparr>
       \<in> set (request_exps (snd (deleteRequest cleanup_fault 2 2 demo_world)))"
  by (simp add: demo_world_def demo_request_def delete_defs delete_fault_defs
      Expiring_getExpireByItem_def)

text \<open>
  C4, amended. Let a Request exist, let the caller be its author, and let the expiration
  store hold at most one record per item. \<open>deleteRequest\<close> succeeds exactly when the check
  of the author, the removal of the offers and the delete of the request do not fail:
  neither the absence of an ExpirationRecord nor a failure of the cleanup of that record
  makes the deletion fail. After a successful \<open>deleteRequest\<close> no Offer references the
  Request's id and the Request is gone; no ExpirationRecord references its id provided
  the lookup and the delete of the record did not fail, and otherwise (the failure is
  caught and logged) the expiration store is as it was. The writes of a successful call
  are, in this order: the delete of the ExpirationRecord (if there is one and the cleanup
  did not fail), the removal of the Request's Offers, the delete of the Request.
\<close>

theorem deleteRequest_cascade:
  assumes "requests s oid = Some r" and "r_requester r = user"
    and "one_record_per_item (request_exps s)"
  shows
    "(fst (deleteRequest f user oid s) = Inr ()) =
       (author_check f = None \<and> offers_remove f = None \<and> primary_delete f = None)
     \<and> (fst (deleteRequest f user oid s) = Inr () \<longrightarrow>
          (\<forall>k offer. offers (snd (deleteRequest f user oid s)) k = Some offer
                       \<longrightarrow> o_item offer \<noteq> oid)
          \<and> requests (snd (deleteRequest f user oid s)) oid = None
          \<and> (exp_lookup f = None \<and> exp_delete f = None \<longrightarrow>
               oid \<notin> e_item ` set (request_exps (snd (deleteRequest f user oid s))))
          \<and> (exp_lookup f \<noteq> None \<or> exp_delete f \<noteq> None \<longrightarrow>
               request_exps (snd (deleteRequest f user oid s)) = request_exps s)
          \<and> calls (snd (deleteRequest f user oid s)) =
              calls s
              @ (if exp_lookup f = None \<and> exp_delete f = None
                 then (case Expiring_getExpireByItem oid (request_exps s) of
                         None \<Rightarrow> []
                       | Some e \<Rightarrow> [RequestExpDeleted (e_id e)])
                 else [])
              @ [OffersRemoved oid, RequestDeleted oid])"
proof -
  let ?s' = "snd (deleteRequest f user oid s)"
  have ok: "(fst (deleteRequest f user oid s) = Inr ()) =
       (author_check f = None \<and> offers_remove f = None \<and> primary_delete f = None)"
    using assms(1,2) by (auto simp: delete_defs split: option.splits)
  have clean: "request_exps ?s' =
      (case Expiring_getExpireByItem oid (request_exps s) of
         None \<Rightarrow> request_exps s
       | Some e \<Rightarrow> Expiring_delete (e_id e) (request_exps s))"
    if "exp_lookup f = None" "exp_delete f = None" "fst (deleteRequest f user oid s) = Inr ()"
    using that assms(1,2)
    by (simp add: deleteRequest_def Requesting_assertAuthor_def Request_Expiring_delete_def
        Offering_removeAllItemOffers_def Requesting_delete_def Let_def split: option.splits)
  have exps: "oid \<notin> e_item ` set (request_exps ?s')"
    if "exp_lookup f = None" "exp_delete f = None" "fst (deleteRequest f user oid s) = Inr ()"
    unfolding clean [OF that] using assms(3) by (rule record_of_item_deleted)
  have kept: "request_exps ?s' = request_exps s"
    if "exp_lookup f \<noteq> None \<or> exp_delete f \<noteq> None"
    using that assms(1,2) by (auto simp: delete_defs split: option.splits)
  have off: "\<forall>k offer. offers ?s' k = Some offer \<longrightarrow> o_item offer \<noteq> oid"
    if "fst (deleteRequest f user oid s) = Inr ()"
    using that assms(1,2) by (auto simp: delete_defs split: option.splits if_splits)
  have gone: "requests ?s' oid = None"
    if "fst (deleteRequest f user oid s) = Inr ()"
    using that assms(1,2) by (auto simp: delete_defs split: option.splits)
  have log: "calls ?s' =
      calls s
      @ (if exp_lookup f = None \<and> exp_delete f = None
         then (case Expiring_getExpireByItem oid (request_exps s) of
                 None \<Rightarrow> []
               | Some e \<Rightarrow> [RequestExpDeleted (e_id e)])
         else [])
      @ [OffersRemoved oid, RequestDeleted oid]"
    if "fst (deleteRequest f user oid s) = Inr ()"
    using that assms(1,2) by (auto simp: delete_defs split: option.splits)
  show ?thesis
  proof (intro conjI impI)
    show "(fst (deleteRequest f user oid s) = Inr ()) =
        (author_check f = None \<and> offers_remove f = None \<and> primary_delete f = None)"
      by (rule ok)
  next
    assume succ: "fst (deleteRequest f user oid s) = Inr ()"
    show "\<forall>k offer. offers ?s' k = Some offer \<longrightarrow> o_item offer \<noteq> oid"
      by (rule off [OF succ])
    show "requests ?s' oid = None"
      by (rule gone [OF succ])
    show "calls ?s' =
        calls s
        @ (if exp_lookup f = None \<and> exp_delete f = None
           then (case Expiring_getExpireByItem oid (request_exps s) of
                   None \<Rightarrow> []
                 | Some e \<Rightarrow> [RequestExpDeleted (e_id e)])
           else [])
        @ [OffersRemoved oid, RequestDeleted oid]"
      by (rule log [OF succ])
    show "oid \<notin> e_item ` set (request_exps ?s')"
      if "exp_lookup f = None \<and> exp_delete f = None"
      using that exps [OF _ _ succ] by simp
    show "request_exps ?s' = request_exps s"
      if "exp_lookup f \<noteq> None \<or> exp_delete f \<noteq> None"
      using that by (rule kept)
  qed
qed

theorem deleteRequest_cascade_witness:
  "requests demo_world 2 = Some demo_request \<and> r_requester demo_request = 2
   \<and> one_record_per_item (request_exps demo_world)
   \<and> fst (deleteRequest no_delete_faults 2 2 demo_world) = Inr ()
   \<and> map e_item (request_exps (snd (deleteRequest no_delete_faults 2 2 demo_world))) = [3, 21]
   \<and> offers (snd (deleteRequest no_delete_faults 2 2 demo_world)) 30 = None
   \<and> offers (snd (deleteRequest no_delete_faults 2 2 demo_world)) 31 = None
   \<and> requests (snd (deleteRequest no_delete_faults 2 2 demo_world)) 2 = None
   \<and> calls (snd (deleteRequest no_delete_faults 2 2 demo_world))
       = [RequestExpDeleted 13, OffersRemoved 2, RequestDeleted 2]
   \<and> fst (deleteRequest lookup_fault 2 2 demo_world) = Inr ()
   \<and> request_exps (snd (deleteRequest lookup_fault 2 2 demo_world)) = request_exps demo_world
   \<and> offers (snd (deleteRequest lookup_fault 2 2 demo_world)) 30 = None
   \<and> calls (snd (deleteRequest lookup_fault 2 2 demo_world))
       = [OffersRemoved 2, RequestDeleted 2]
   \<and> one_record_per_item (request_exps (demo_world\<lparr>request_exps := []\<rparr>))
   \<and> fst (deleteRequest no_delete_faults 2 2 (demo_world\<lparr>request_exps := []\<rparr>)) = Inr ()
   \<and> calls (snd (deleteRequest no_delete_faults 2 2 (demo_world\<lparr>request_exps := []\<rparr>)))
       = [OffersRemoved 2, RequestDeleted 2]"
proof -
  have h1: "requests demo_world 2 = Some demo_request"
    by (simp add: demo_world_def)
  have h2: "r_requester demo_request = 2"
    by (simp add: demo_request_def)
  have h3: "one_record_per_item (request_exps demo_world)"
    by (simp add: one_record_per_item_def demo_world_def)
  have h1': "requests (demo_world\<lparr>request_exps := []\<rparr>) 2 = Some demo_request"
    by (simp add: demo_world_def)
  have h3': "one_record_per_item (request_exps (demo_world\<lparr>request_exps := []\<rparr>))"
    by (simp add: one_record_per_item_def)
  show ?thesis
    using h1 h2 h3 h3'
      deleteRequest_cascade [OF h1 h2 h3, of no_delete_faults]
      deleteRequest_cascade [OF h1 h2 h3, of lookup_fault]
      deleteRequest_cascade [OF h1' h2 h3', of no_delete_faults]
    by (simp add: demo_world_def delete_defs delete_fault_defs Expiring_getExpireByItem_def)
qed

subsection \<open>The hidden flag\<close>

lemma tag_loop_frame:
  "tag_loop f oid tags s = (e, s') \<Longrightarrow>
     listings s' = listings s \<and> requests s' = requests s \<and> listing_exps s' = listing_exps s
     \<and> request_exps s' = request_exps s \<and> next_id s' = next_id s"
  by (induction tags arbitrary: s) (auto simp: Tagging_tagItem_def split: option.splits)

lemma addListing_items:
  "i \<noteq> next_id s \<Longrightarrow>
     listings (snd (addListing f user name meetup_location img quantity expireDate description tags s)) i
       = listings s i"
  "requests (snd (addListing f user name meetup_location img quantity expireDate description tags s))
     = requests s"
  by (auto simp: addListing_def addListing_try_def Listing_addListing_def
      Listing_Expiring_allocate_def Listing_delete_def Let_def
      split: option.splits prod.splits sum.splits dest!: tag_loop_frame)

lemma addRequest_items:
  "i \<noteq> next_id s \<Longrightarrow>
     requests (snd (addRequest f user name quantity needBy img description s)) i = requests s i"
  "listings (snd (addRequest f user name quantity needBy img description s)) = listings s"
  by (auto simp: addRequest_def addRequest_try_def Requesting_add_def
      Request_Expiring_allocate_def Requesting_delete_def Let_def
      split: option.splits prod.splits sum.splits)

lemma deleteListing_items:
  "listings (snd (deleteListing f user oid s)) i = None
     \<or> listings (snd (deleteListing f user oid s)) i = listings s i"
  "requests (snd (deleteListing f user oid s)) = requests s"
  by (auto simp: delete_defs split: option.splits)

lemma deleteRequest_items:
  "requests (snd (deleteRequest f user oid s)) i = None
     \<or> requests (snd (deleteRequest f user oid s)) i = requests s i"
  "listings (snd (deleteRequest f user oid s)) = listings s"
  by (auto simp: delete_defs split: option.splits)

lemma acceptOffer_items:
  "requests (snd (acceptOffer user oid s)) i = requests s i
     \<or> requests (snd (acceptOffer user oid s)) i
          = map_option (\<lambda>r. r\<lparr>r_hidden := True\<rparr>) (requests s i)"
  "listings (snd (acceptOffer user oid s)) = listings s"
  by (auto simp: acceptOffer_def Offering_getOfferById_def Requesting_hideSwitch_def
      Offering_accept_def Let_def split: option.splits)

lemma claim_items:
  "listings s i = Some l \<Longrightarrow> l_hidden l \<Longrightarrow>
     \<exists>l'. listings (snd (claim user oid quantity s)) i = Some l' \<and> l_hidden l'"
  "requests (snd (claim user oid quantity s)) = requests s"
  by (auto simp: claim_def Listing_getListingById_def Claiming_claim_def Listing_editlisting_def
      Listing_hideSwitch_def Let_def split: option.splits)

lemma fresh_below: 
  "ids_fresh s \<Longrightarrow> listings s i = Some l \<Longrightarrow> i \<noteq> next_id s"
  "ids_fresh s \<Longrightarrow> requests s i = Some r \<Longrightarrow> i \<noteq> next_id s"
  by (auto simp: ids_fresh_def)

lemma ids_fresh_empty: "ids_fresh empty_world"
  by (simp add: ids_fresh_def empty_world_def)

lemma sweep_next_id: "next_id (cron_tick now s) = next_id s"
  by (simp add: cron_tick_def hl_frame hr_frame)

lemma ids_fresh_run_core: "ids_fresh s \<Longrightarrow> ids_fresh (run_core op s)"
proof (cases op)
  case (AddListing f user name meetup_location img quantity expireDate description tags)
  then show "ids_fresh s \<Longrightarrow> ?thesis"
    by (auto simp: ids_fresh_def addListing_def addListing_try_def Listing_addListing_def
      Listing_Expiring_allocate_def Listing_delete_def Let_def
      split: option.splits prod.splits sum.splits dest!: tag_loop_frame)
next
  case (AddRequest f user name quantity needBy img description)
  then show "ids_fresh s \<Longrightarrow> ?thesis"
    by (auto simp: ids_fresh_def addRequest_def addRequest_try_def Requesting_add_def
      Request_Expiring_allocate_def Requesting_delete_def Let_def
      split: option.splits prod.splits sum.splits)
next
  case (DeleteListing f user oid)
  then show "ids_fresh s \<Longrightarrow> ?thesis"
    by (auto simp: ids_fresh_def delete_defs split: option.splits)
next
  case (DeleteRequest f user oid)
  then show "ids_fresh s \<Longrightarrow> ?thesis"
    by (auto simp: ids_fresh_def delete_defs split: option.splits)
next
  case (AcceptOffer user oid)
  then show "ids_fresh s \<Longrightarrow> ?thesis"
    by (auto simp: ids_fresh_def acceptOffer_def Offering_getOfferById_def
        Requesting_hideSwitch_def Offering_accept_def Let_def split: option.splits)
next
  case (Claim user oid quantity)
  then show "ids_fresh s \<Longrightarrow> ?thesis"
    by (auto simp: ids_fresh_def claim_def Listing_getListingById_def Claiming_claim_def
        Listing_editlisting_def Listing_hideSwitch_def Let_def split: option.splits)
next
  case (SweepTick now)
  then show "ids_fresh s \<Longrightarrow> ?thesis"
    by (auto simp: ids_fresh_def sweep_next_id tick_listings hl_items tick_requests)
qed

text \<open>
  C3. In stores whose ids are below the id counter (every store reached from the empty
  stores by core operations is such, by the two lemmas above), let a listing or a
  request be hidden. After any one core operation (creating a listing or a request, with
  any store failures; deleting a listing or a request, with any store failures;
  accepting an offer; claiming a listing; a tick of the sweep) the item is deleted or
  still hidden.
\<close>

theorem hidden_stays_hidden:
  assumes "ids_fresh s"
  shows
    "(listings s i = Some l \<and> l_hidden l \<longrightarrow>
        (\<forall>l'. listings (run_core op s) i = Some l' \<longrightarrow> l_hidden l'))
     \<and> (requests s i = Some r \<and> r_hidden r \<longrightarrow>
        (\<forall>r'. requests (run_core op s) i = Some r' \<longrightarrow> r_hidden r'))"
proof (cases op)
  case (AddListing f user name meetup_location img quantity expireDate description tags)
  then show ?thesis
    using assms by (auto simp: addListing_items fresh_below)
next
  case (AddRequest f user name quantity needBy img description)
  then show ?thesis
    using assms by (auto simp: addRequest_items fresh_below)
next
  case (DeleteListing f user oid)
  then show ?thesis
    using deleteListing_items(1) [of f user oid s i] by (auto simp: deleteListing_items(2))
next
  case (DeleteRequest f user oid)
  then show ?thesis
    using deleteRequest_items(1) [of f user oid s i] by (auto simp: deleteRequest_items(2))
next
  case (AcceptOffer user oid)
  then show ?thesis
    using acceptOffer_items(1) [of user oid s i] by (auto simp: acceptOffer_items(2))
next
  case (Claim user oid quantity)
  then show ?thesis
    using claim_items(1) [of s i l user oid quantity] by (auto simp: claim_items(2))
next
  case (SweepTick now)
  then show ?thesis
    by (auto simp: tick_listings hl_items tick_requests)
qed

theorem hidden_stays_hidden_witness:
  "ids_fresh demo_world
   \<and> listings demo_world 1 = Some (demo_listing\<lparr>l_hidden := True\<rparr>)
   \<and> l_hidden (demo_listing\<lparr>l_hidden := True\<rparr>)
   \<and> listings (run_core (Claim 7 1 (js_int 2)) demo_world) 1
       = Some (demo_listing\<lparr>l_quantity := js_int 3, l_hidden := True\<rparr>)
   \<and> requests demo_world 3 = Some (demo_request\<lparr>r_hidden := True\<rparr>)
   \<and> r_hidden (demo_request\<lparr>r_hidden := True\<rparr>)
   \<and> requests (run_core (SweepTick (6, 0)) demo_world) 3
       = Some (demo_request\<lparr>r_hidden := True\<rparr>)"
proof -
  have h: "ids_fresh demo_world"
    by (simp add: ids_fresh_def demo_world_def)
  have a: "listings demo_world 1 = Some (demo_listing\<lparr>l_hidden := True\<rparr>)"
    "requests demo_world 3 = Some (demo_request\<lparr>r_hidden := True\<rparr>)"
    by (simp_all add: demo_world_def)
  have c: "listings (run_core (Claim 7 1 (js_int 2)) demo_world) 1
             = Some (demo_listing\<lparr>l_quantity := js_int 3, l_hidden := True\<rparr>)"
    by (simp add: demo_world_def demo_listing_def claim_defs js_le_int js_strict_eq_int
        js_sub_int)
  have t: "requests (run_core (SweepTick (6, 0)) demo_world) 3
             = Some (demo_request\<lparr>r_hidden := True\<rparr>)"
    by (simp add: demo_world_def sweep_defs)
  show ?thesis
    using h a c t
      hidden_stays_hidden [OF h, of 1 "demo_listing\<lparr>l_hidden := True\<rparr>" "Claim 7 1 (js_int 2)"]
      hidden_stays_hidden [OF h, of 3 _ "SweepTick (6, 0)" "demo_request\<lparr>r_hidden := True\<rparr>"]
    by simp
qed

end
